theory Spec2Isabelle
  imports Complex_Main "HOL-Library.AList"
begin

section \<open>Floating-point cells, frames and Python errors\<close>

text \<open>
  A cell of a pandas column is a float. The model keeps the one distinction the
  indicator and signal code depends on: a cell is either \<open>NaN\<close> (pandas' marker for a
  missing or undefined value) or a finite value, taken as an exact real number.
  Rounding and infinities are not represented; a division by zero yields \<open>NaN\<close>. A
  statement that a computed cell is a number therefore speaks of the program only where
  no operation overflows; the results that depend on it state a bound on the inputs.
\<close>

datatype pyfloat = NaN | Val real

datatype py_error = KeyError | IndexError

type_synonym timestamp = nat

text \<open>
  A \<open>pandas.DataFrame\<close>: the row index (one timestamp per bar, oldest first) and the
  string-keyed columns. \<open>len(df)\<close> is the length of the index.
\<close>

record frame =
  index :: "timestamp list"
  columns :: "string \<rightharpoonup> pyfloat list"

definition len :: "frame \<Rightarrow> nat" where
  "len df = length (index df)"

text \<open>Every column of a data frame has one cell per row of the index.\<close>

definition wf_frame :: "frame \<Rightarrow> bool" where
  "wf_frame df = (\<forall>k col. columns df k = Some col \<longrightarrow> length col = length (index df))"

text \<open>\<open>pd.isna\<close>, and float arithmetic and comparison with NaN propagation:
  an arithmetic result is NaN as soon as an operand is, a comparison with NaN is false.\<close>

definition isna :: "pyfloat \<Rightarrow> bool" where
  "isna x = (x = NaN)"

fun fsub :: "pyfloat \<Rightarrow> pyfloat \<Rightarrow> pyfloat" where
  "fsub (Val a) (Val b) = Val (a - b)"
| "fsub _ _ = NaN"

fun fadd :: "pyfloat \<Rightarrow> pyfloat \<Rightarrow> pyfloat" where
  "fadd (Val a) (Val b) = Val (a + b)"
| "fadd _ _ = NaN"

fun fmul :: "pyfloat \<Rightarrow> pyfloat \<Rightarrow> pyfloat" where
  "fmul (Val a) (Val b) = Val (a * b)"
| "fmul _ _ = NaN"

fun fdiv :: "pyfloat \<Rightarrow> pyfloat \<Rightarrow> pyfloat" where
  "fdiv (Val a) (Val b) = (if b = 0 then NaN else Val (a / b))"
| "fdiv _ _ = NaN"

fun fabs :: "pyfloat \<Rightarrow> pyfloat" where
  "fabs (Val a) = Val \<bar>a\<bar>"
| "fabs NaN = NaN"

fun fgt :: "pyfloat \<Rightarrow> pyfloat \<Rightarrow> bool" where
  "fgt (Val a) (Val b) = (a > b)"
| "fgt _ _ = False"

fun flt :: "pyfloat \<Rightarrow> pyfloat \<Rightarrow> bool" where
  "flt (Val a) (Val b) = (a < b)"
| "flt _ _ = False"

text \<open>\<open>df[k]\<close> raises \<open>KeyError\<close> for a missing column; \<open>df[k] = col\<close> adds or
  replaces one; \<open>df.drop(columns=[c for c in ks if c in df.columns])\<close> removes those present.\<close>

definition get_col :: "frame \<Rightarrow> string \<Rightarrow> py_error + pyfloat list" where
  "get_col df k = (case columns df k of None \<Rightarrow> Inl KeyError | Some col \<Rightarrow> Inr col)"

definition set_col :: "frame \<Rightarrow> string \<Rightarrow> pyfloat list \<Rightarrow> frame" where
  "set_col df k col = df\<lparr>columns := (columns df)(k \<mapsto> col)\<rparr>"

definition drop_cols :: "frame \<Rightarrow> string list \<Rightarrow> frame" where
  "drop_cols df ks = df\<lparr>columns := (\<lambda>k. if k \<in> set ks then None else columns df k)\<rparr>"

section \<open>Formatting integers into column names\<close>

text \<open>Python's \<open>str\<close> on an integer, as used by the f-strings that build column names
  such as \<open>f'donchian_high_{period}'\<close>.\<close>

definition digit_char :: "nat \<Rightarrow> char" where
  "digit_char d = ''0123456789'' ! d"

function str_nat :: "nat \<Rightarrow> string" where
  "str_nat n = (if n < 10 then [digit_char n] else str_nat (n div 10) @ [digit_char (n mod 10)])"
  by pat_completeness auto
termination
  by (relation "measure id") auto

declare str_nat.simps [simp del]

definition str_int :: "int \<Rightarrow> string" where
  "str_int i = (if i < 0 then CHR ''-'' # str_nat (nat (- i)) else str_nat (nat i))"

section \<open>Rolling windows\<close>

text \<open>
  \<open>series.rolling(window=w)\<close> with the default \<open>min_periods\<close> (the window size): the
  window of bar \<open>i\<close> holds bars \<open>max(0, i-w+1) .. i\<close>, and the aggregate is NaN unless the
  window holds \<open>w\<close> non-NaN observations. The source only uses positive literal windows.
\<close>

definition window_at :: "nat \<Rightarrow> pyfloat list \<Rightarrow> nat \<Rightarrow> pyfloat list" where
  "window_at w xs i = drop (Suc i - w) (take (Suc i) xs)"

fun observations :: "pyfloat list \<Rightarrow> real list" where
  "observations [] = []"
| "observations (NaN # xs) = observations xs"
| "observations (Val x # xs) = x # observations xs"

definition rolling :: "nat \<Rightarrow> (real list \<Rightarrow> real) \<Rightarrow> pyfloat list \<Rightarrow> pyfloat list" where
  "rolling w agg xs =
     map (\<lambda>i. let obs = observations (window_at w xs i)
              in if length obs < w then NaN else Val (agg obs))
         [0..<length xs]"

fun max_obs :: "real list \<Rightarrow> real" where
  "max_obs [] = 0"
| "max_obs (x # xs) = fold max xs x"

fun min_obs :: "real list \<Rightarrow> real" where
  "min_obs [] = 0"
| "min_obs (x # xs) = fold min xs x"

definition mean :: "real list \<Rightarrow> real" where
  "mean xs = sum_list xs / real (length xs)"

text \<open>\<open>rolling(...).std()\<close>: the sample standard deviation (\<open>ddof=1\<close>).\<close>

definition std :: "real list \<Rightarrow> real" where
  "std xs = sqrt (sum_list (map (\<lambda>x. (x - mean xs)\<^sup>2) xs) / (real (length xs) - 1))"

text \<open>\<open>series.shift(1)\<close>: every value moves one bar later, bar 0 becomes NaN.\<close>

definition shift1 :: "pyfloat list \<Rightarrow> pyfloat list" where
  "shift1 xs = take (length xs) (NaN # xs)"

text \<open>\<open>series.pct_change()\<close>: \<open>x[i] / x[i-1] - 1\<close>, NaN at bar 0. No missing value is filled
  before the division; pandas versions that forward-fill by default give the same result on a
  column without NaN, and forward filling only looks at earlier bars.\<close>

definition pct_change :: "pyfloat list \<Rightarrow> pyfloat list" where
  "pct_change xs = map2 (\<lambda>x p. fsub (fdiv x p) (Val 1)) xs (shift1 xs)"

text \<open>\<open>df[['tr1', 'tr2', 'tr3']].max(axis=1)\<close>: the row-wise maximum skips NaN cells
  (\<open>skipna=True\<close> is the default) and is NaN only when all three cells are.\<close>

definition row_max3 :: "pyfloat \<Rightarrow> pyfloat \<Rightarrow> pyfloat \<Rightarrow> pyfloat" where
  "row_max3 a b c = (case observations [a, b, c] of [] \<Rightarrow> NaN | x # xs \<Rightarrow> Val (max_obs (x # xs)))"

definition max_axis1 :: "pyfloat list \<Rightarrow> pyfloat list \<Rightarrow> pyfloat list \<Rightarrow> pyfloat list" where
  "max_axis1 as bs cs = map (\<lambda>(a, b, c). row_max3 a b c) (zip as (zip bs cs))"

section \<open>DataManager.calculate_technical_indicators\<close>

text \<open>Sequencing of steps that may raise: the first exception ends the computation.\<close>

definition bind_err :: "py_error + 'a \<Rightarrow> ('a \<Rightarrow> py_error + 'b) \<Rightarrow> py_error + 'b" where
  "bind_err m f = (case m of Inl e \<Rightarrow> Inl e | Inr x \<Rightarrow> f x)"

text \<open>Column assignments \<open>df[k] = f(df[a])\<close> and \<open>df[k] = f(df[a], df[b])\<close>.\<close>

definition assign1 :: "string \<Rightarrow> (pyfloat list \<Rightarrow> pyfloat list) \<Rightarrow> string \<Rightarrow> frame \<Rightarrow> py_error + frame" where
  "assign1 k f a df = bind_err (get_col df a) (\<lambda>xs. Inr (set_col df k (f xs)))"

definition assign2 :: "string \<Rightarrow> (pyfloat list \<Rightarrow> pyfloat list \<Rightarrow> pyfloat list) \<Rightarrow> string \<Rightarrow> string
    \<Rightarrow> frame \<Rightarrow> py_error + frame" where
  "assign2 k f a b df =
     bind_err (get_col df a) (\<lambda>xs. bind_err (get_col df b) (\<lambda>ys. Inr (set_col df k (f xs ys))))"

text \<open>The Donchian loop: \<open>for period in [10, 20, 55]\<close>.\<close>

fun donchian_loop :: "nat list \<Rightarrow> frame \<Rightarrow> py_error + frame" where
  "donchian_loop [] df = Inr df"
| "donchian_loop (period # ps) df =
     bind_err (assign1 (''donchian_high_'' @ str_nat period) (rolling period max_obs) ''high'' df)
       (\<lambda>df1. bind_err (assign1 (''donchian_low_'' @ str_nat period) (rolling period min_obs) ''low'' df1)
         (donchian_loop ps))"

text \<open>The true range: \<open>prev_close\<close>, \<open>tr1\<close>, \<open>tr2\<close>, \<open>tr3\<close> and their row maximum.\<close>

definition max_of_tr :: "frame \<Rightarrow> py_error + frame" where
  "max_of_tr df =
     bind_err (get_col df ''tr1'') (\<lambda>tr1. bind_err (get_col df ''tr2'') (\<lambda>tr2.
       bind_err (get_col df ''tr3'') (\<lambda>tr3. Inr (set_col df ''true_range'' (max_axis1 tr1 tr2 tr3)))))"

definition true_range_step :: "frame \<Rightarrow> py_error + frame" where
  "true_range_step df =
     bind_err (assign1 ''prev_close'' shift1 ''close'' df) (\<lambda>df1.
     bind_err (assign2 ''tr1'' (map2 fsub) ''high'' ''low'' df1) (\<lambda>df2.
     bind_err (assign2 ''tr2'' (\<lambda>h p. map fabs (map2 fsub h p)) ''high'' ''prev_close'' df2) (\<lambda>df3.
     bind_err (assign2 ''tr3'' (\<lambda>l p. map fabs (map2 fsub l p)) ''low'' ''prev_close'' df3)
       max_of_tr)))"

text \<open>A loop \<open>for period in ps: df[f'{name}{period}'] = df[src].rolling(window=period).agg()\<close>;
  it serves the ATR, SMA and volatility loops.\<close>

fun rolling_loop :: "string \<Rightarrow> string \<Rightarrow> (real list \<Rightarrow> real) \<Rightarrow> nat list \<Rightarrow> frame \<Rightarrow> py_error + frame" where
  "rolling_loop name src agg [] df = Inr df"
| "rolling_loop name src agg (period # ps) df =
     bind_err (assign1 (name @ str_nat period) (rolling period agg) src df) (rolling_loop name src agg ps)"

text \<open>The volatility aggregate: \<open>rolling(...).std() * np.sqrt(252)\<close>.\<close>

definition annualized_std :: "real list \<Rightarrow> real" where
  "annualized_std obs = std obs * sqrt 252"

definition temp_cols :: "string list" where
  "temp_cols = [''prev_close'', ''tr1'', ''tr2'', ''tr3'']"

definition calculate_technical_indicators :: "frame \<Rightarrow> py_error + frame" where
  "calculate_technical_indicators df =
     bind_err (donchian_loop [10, 20, 55] df) (\<lambda>d1.
     bind_err (true_range_step d1) (\<lambda>d2.
     bind_err (rolling_loop ''atr_'' ''true_range'' mean [10, 20, 30] d2) (\<lambda>d3.
     bind_err (rolling_loop ''sma_'' ''close'' mean [10, 20, 50, 200] d3) (\<lambda>d4.
     bind_err (assign1 ''returns'' pct_change ''close'' d4) (\<lambda>d5.
     bind_err (rolling_loop ''volatility_'' ''returns'' annualized_std [10, 20, 30] d5) (\<lambda>d6.
     Inr (drop_cols d6 temp_cols)))))))"

section \<open>Signals and trading configuration\<close>

datatype SignalType = BUY | SELL | HOLD | PYRAMID | EXIT

text \<open>The \<open>Signal\<close> named tuple. \<open>stop_price\<close> and \<open>target_price\<close> are
  \<open>Optional[float]\<close>: \<open>None\<close> is Python's \<open>None\<close>, \<open>Some NaN\<close> a float that is NaN.\<close>

record Signal =
  symbol :: string
  signal_type :: SignalType
  timestamp :: timestamp
  price :: pyfloat
  system :: int
  confidence :: real
  stop_price :: "pyfloat option"
  target_price :: "pyfloat option"
  units :: int

text \<open>The fields of \<open>TradingConfig\<close> that the signal engine reads. The configuration
  class validates none of them, so every integer and real is a possible value.\<close>

record TradingConfig =
  system1_length :: int
  system2_length :: int
  use_system2 :: bool
  max_units_per_position :: int
  pyramid_increment :: real
  atr_period :: int
  stop_atr_multiple :: real
  exit_length_s1 :: int
  exit_length_s2 :: int

definition default_trading :: TradingConfig where
  "default_trading = \<lparr>system1_length = 20, system2_length = 55, use_system2 = True,
     max_units_per_position = 5, pyramid_increment = 1 / 2, atr_period = 20,
     stop_atr_multiple = 2, exit_length_s1 = 10, exit_length_s2 = 20\<rparr>"

section \<open>Rows of a frame\<close>

type_synonym row = "string \<rightharpoonup> pyfloat"

text \<open>\<open>df.iloc[-1]\<close>: the last row with its index label (\<open>latest_row.name\<close>);
  \<open>IndexError\<close> on a frame without rows.\<close>

definition iloc_last :: "frame \<Rightarrow> py_error + (timestamp \<times> row)" where
  "iloc_last df =
     (if len df = 0 then Inl IndexError
      else Inr (index df ! (len df - 1), \<lambda>k. map_option (\<lambda>col. col ! (len df - 1)) (columns df k)))"

text \<open>\<open>latest_row[k]\<close> raises \<open>KeyError\<close> for a missing label;
  \<open>latest_row.get(k, d)\<close> returns the default instead.\<close>

definition row_getitem :: "row \<Rightarrow> string \<Rightarrow> py_error + pyfloat" where
  "row_getitem r k = (case r k of None \<Rightarrow> Inl KeyError | Some v \<Rightarrow> Inr v)"

definition row_get :: "row \<Rightarrow> string \<Rightarrow> pyfloat \<Rightarrow> pyfloat" where
  "row_get r k d = (case r k of None \<Rightarrow> d | Some v \<Rightarrow> v)"

section \<open>SignalEngine\<close>

definition buy_signal :: "string \<Rightarrow> timestamp \<Rightarrow> pyfloat \<Rightarrow> int \<Rightarrow> pyfloat \<Rightarrow> Signal" where
  "buy_signal smb latest_date current_price sys stop =
     \<lparr>symbol = smb, signal_type = BUY, timestamp = latest_date, price = current_price,
      system = sys, confidence = 1, stop_price = Some stop, target_price = None, units = 1\<rparr>"

definition exit_signal :: "string \<Rightarrow> timestamp \<Rightarrow> pyfloat \<Rightarrow> int \<Rightarrow> Signal" where
  "exit_signal smb latest_date current_price sys =
     \<lparr>symbol = smb, signal_type = EXIT, timestamp = latest_date, price = current_price,
      system = sys, confidence = 1, stop_price = None, target_price = None, units = 1\<rparr>"

text \<open>The exit half of \<open>_check_system1_signals\<close> and \<open>_check_system2_signals\<close>: it runs
  after the entry check and appends to the signals found so far.\<close>

definition check_exit :: "int \<Rightarrow> int \<Rightarrow> string \<Rightarrow> frame \<Rightarrow> row \<Rightarrow> timestamp \<Rightarrow> pyfloat
    \<Rightarrow> Signal list \<Rightarrow> py_error + Signal list" where
  "check_exit sys exit_length smb df latest_row latest_date current_price signals =
     (if columns df (''donchian_low_'' @ str_int exit_length) \<noteq> None then
        bind_err (row_getitem latest_row (''donchian_low_'' @ str_int exit_length)) (\<lambda>exit_low.
          if flt current_price exit_low \<and> \<not> isna exit_low
          then Inr (signals @ [exit_signal smb latest_date current_price sys])
          else Inr signals)
      else Inr signals)"

text \<open>The two methods \<open>_check_system1_signals\<close> and \<open>_check_system2_signals\<close> have the
  same body up to the system number, the breakout length and the exit length read from the
  configuration; \<open>check_system_signals\<close> is that body.\<close>

definition check_system_signals :: "int \<Rightarrow> int \<Rightarrow> int \<Rightarrow> TradingConfig \<Rightarrow> string \<Rightarrow> frame \<Rightarrow> row
    \<Rightarrow> timestamp \<Rightarrow> py_error + Signal list" where
  "check_system_signals sys breakout_length exit_length cfg smb df latest_row latest_date =
     (if columns df (''donchian_high_'' @ str_int breakout_length) = None then Inr []
      else
        bind_err (row_getitem latest_row ''close'') (\<lambda>current_price.
        bind_err (row_getitem latest_row (''donchian_high_'' @ str_int breakout_length)) (\<lambda>donchian_high.
        bind_err (row_getitem latest_row (''donchian_low_'' @ str_int breakout_length)) (\<lambda>donchian_low.
          check_exit sys exit_length smb df latest_row latest_date current_price
            (if fgt current_price donchian_high \<and> \<not> isna donchian_high
             then [buy_signal smb latest_date current_price sys
                     (fsub current_price
                        (fmul (Val (stop_atr_multiple cfg))
                           (row_get latest_row (''atr_'' @ str_int (atr_period cfg)) (Val 0))))]
             else [])))))"

definition check_system1_signals :: "TradingConfig \<Rightarrow> string \<Rightarrow> frame \<Rightarrow> row \<Rightarrow> timestamp
    \<Rightarrow> py_error + Signal list" where
  "check_system1_signals cfg = check_system_signals 1 (system1_length cfg) (exit_length_s1 cfg) cfg"

definition check_system2_signals :: "TradingConfig \<Rightarrow> string \<Rightarrow> frame \<Rightarrow> row \<Rightarrow> timestamp
    \<Rightarrow> py_error + Signal list" where
  "check_system2_signals cfg = check_system_signals 2 (system2_length cfg) (exit_length_s2 cfg) cfg"

text \<open>\<open>_generate_symbol_signals\<close>.\<close>

definition generate_symbol_signals :: "TradingConfig \<Rightarrow> string \<Rightarrow> frame \<Rightarrow> py_error + Signal list" where
  "generate_symbol_signals cfg smb df =
     (if int (len df) < max (system1_length cfg) (system2_length cfg) then Inr []
      else
        bind_err (iloc_last df) (\<lambda>(latest_date, latest_row).
        bind_err (check_system1_signals cfg smb df latest_row latest_date) (\<lambda>system1_signals.
          if use_system2 cfg
          then bind_err (check_system2_signals cfg smb df latest_row latest_date) (\<lambda>system2_signals.
                 Inr (system1_signals @ system2_signals))
          else Inr system1_signals)))"

text \<open>The engine object: its configuration and \<open>last_signals\<close>, a Python dictionary, kept
  as an association list in insertion order; \<open>d[k] = v\<close> is \<open>AList.update k v d\<close>.\<close>

type_synonym signal_dict = "(string \<times> Signal list) list"

record SignalEngine =
  config :: TradingConfig
  last_signals :: signal_dict

definition init_engine :: "TradingConfig \<Rightarrow> SignalEngine" where
  "init_engine cfg = \<lparr>config = cfg, last_signals = []\<rparr>"

text \<open>The loop of \<open>generate_signals\<close> over \<open>data.items()\<close>, carrying \<open>all_signals\<close> and
  \<open>self.last_signals\<close>. An exception raised for one symbol is logged and the loop continues.\<close>

fun generate_signals_loop :: "TradingConfig \<Rightarrow> (string \<times> frame) list \<Rightarrow> signal_dict \<times> signal_dict
    \<Rightarrow> signal_dict \<times> signal_dict" where
  "generate_signals_loop cfg [] st = st"
| "generate_signals_loop cfg ((smb, df) # rest) (all_signals, lasts) =
     (case generate_symbol_signals cfg smb df of
        Inl e \<Rightarrow> generate_signals_loop cfg rest (all_signals, lasts)
      | Inr signals \<Rightarrow>
          if signals \<noteq> []
          then generate_signals_loop cfg rest
                 (AList.update smb signals all_signals, AList.update smb signals lasts)
          else generate_signals_loop cfg rest (all_signals, lasts))"

definition generate_signals :: "SignalEngine \<Rightarrow> (string \<times> frame) list \<Rightarrow> signal_dict \<times> SignalEngine" where
  "generate_signals eng data =
     (let (all_signals, lasts) = generate_signals_loop (config eng) data ([], last_signals eng)
      in (all_signals, eng\<lparr>last_signals := lasts\<rparr>))"

text \<open>\<open>check_pyramid_signals\<close> and \<open>get_stop_loss_price\<close> read the configuration and the
  frame only.\<close>

definition check_pyramid_signals :: "TradingConfig \<Rightarrow> string \<Rightarrow> frame \<Rightarrow> pyfloat \<Rightarrow> int
    \<Rightarrow> py_error + Signal option" where
  "check_pyramid_signals cfg smb df current_position_price current_units =
     (if current_units \<ge> max_units_per_position cfg then Inr None
      else
        bind_err (iloc_last df) (\<lambda>(latest_date, latest_row).
        bind_err (row_getitem latest_row ''close'') (\<lambda>current_price.
          let atr = row_get latest_row (''atr_'' @ str_int (atr_period cfg)) (Val 0);
              pyramid_threshold = fadd current_position_price
                (fmul (fmul (Val (pyramid_increment cfg)) atr) (Val (real_of_int current_units)))
          in if fgt current_price pyramid_threshold
             then Inr (Some \<lparr>symbol = smb, signal_type = PYRAMID, timestamp = latest_date,
                    price = current_price, system = 1, confidence = 1,
                    stop_price = Some (fsub current_price (fmul (Val (stop_atr_multiple cfg)) atr)),
                    target_price = None, units = 1\<rparr>)
             else Inr None)))"


text \<open>\<open>get_signal_summary\<close>: the number of keys of \<open>last_signals\<close> and the sparse counts
  by signal type (keyed by the enum's value) and by system.\<close>

record summary =
  total_symbols :: nat
  signals_by_type :: "(string \<times> nat) list"
  signals_by_system :: "(string \<times> nat) list"

fun SignalType_value :: "SignalType \<Rightarrow> string" where
  "SignalType_value BUY = ''BUY''"
| "SignalType_value SELL = ''SELL''"
| "SignalType_value HOLD = ''HOLD''"
| "SignalType_value PYRAMID = ''PYRAMID''"
| "SignalType_value EXIT = ''EXIT''"

definition get_signal_summary :: "SignalEngine \<Rightarrow> summary" where
  "get_signal_summary eng =
     (let all_signals = concat (map snd (last_signals eng)) in
      \<lparr>total_symbols = length (last_signals eng),
       signals_by_type =
         map (\<lambda>t. (SignalType_value t, length (filter (\<lambda>s. signal_type s = t) all_signals)))
           (filter (\<lambda>t. length (filter (\<lambda>s. signal_type s = t) all_signals) > 0)
              [BUY, SELL, HOLD, PYRAMID, EXIT]),
       signals_by_system =
         map (\<lambda>n. (''system_'' @ str_int n, length (filter (\<lambda>s. system s = n) all_signals)))
           (filter (\<lambda>n. length (filter (\<lambda>s. system s = n) all_signals) > 0) [1, 2])\<rparr>)"

text \<open>The operations a client can invoke on an engine, and their effect on the engine
  object: only \<open>generate_signals\<close> assigns to \<open>last_signals\<close>.\<close>

datatype engine_op =
    GenerateSignals "(string \<times> frame) list"
  | CheckPyramidSignals string frame pyfloat int
  | GetStopLossPrice string frame pyfloat
  | GetSignalSummary

fun engine_step :: "engine_op \<Rightarrow> SignalEngine \<Rightarrow> SignalEngine" where
  "engine_step (GenerateSignals data) eng = snd (generate_signals eng data)"
| "engine_step (CheckPyramidSignals smb df p n) eng = eng"
| "engine_step (GetStopLossPrice smb df p) eng = eng"
| "engine_step GetSignalSummary eng = eng"

section \<open>Notions used to state the properties\<close>

text \<open>The true-range column as a function of the high, low and close columns.\<close>

definition true_range_of :: "pyfloat list \<Rightarrow> pyfloat list \<Rightarrow> pyfloat list \<Rightarrow> pyfloat list" where
  "true_range_of h l c =
     max_axis1 (map2 fsub h l) (map fabs (map2 fsub h (shift1 c))) (map fabs (map2 fsub l (shift1 c)))"

definition indicator_names :: "string list" where
  "indicator_names = [''donchian_high_10'', ''donchian_low_10'', ''donchian_high_20'', ''donchian_low_20'',
     ''donchian_high_55'', ''donchian_low_55'', ''true_range'', ''atr_10'', ''atr_20'', ''atr_30'',
     ''sma_10'', ''sma_20'', ''sma_50'', ''sma_200'', ''returns'',
     ''volatility_10'', ''volatility_20'', ''volatility_30'']"

text \<open>A price series: a well-formed frame whose open, high, low, close and volume columns
  are present and hold a number on every bar. (Positivity, the OHLC ordering and the ordering
  of the timestamps are not needed by the results below and are not required.)\<close>

definition price_series :: "frame \<Rightarrow> bool" where
  "price_series df =
     (wf_frame df \<and>
      (\<forall>k \<in> set [''open'', ''high'', ''low'', ''close'', ''volume''].
         \<exists>col. columns df k = Some col \<and> NaN \<notin> set col))"

text \<open>An indicator series carries the two Donchian channels of a window together: a frame
  with a \<open>donchian_high_w\<close> column also has the \<open>donchian_low_w\<close> column.\<close>

definition channel_paired :: "frame \<Rightarrow> bool" where
  "channel_paired df =
     (\<forall>w. columns df (''donchian_high_'' @ w) \<noteq> None \<longrightarrow> columns df (''donchian_low_'' @ w) \<noteq> None)"

text \<open>The first \<open>n\<close> bars of a frame (\<open>df.iloc[:n]\<close>), and the cell of every column at bar \<open>i\<close>.\<close>

definition head_rows :: "nat \<Rightarrow> frame \<Rightarrow> frame" where
  "head_rows n df = \<lparr>index = take n (index df), columns = (\<lambda>k. map_option (take n) (columns df k))\<rparr>"

definition row_at :: "frame \<Rightarrow> nat \<Rightarrow> row" where
  "row_at df i = (\<lambda>k. map_option (\<lambda>col. col ! i) (columns df k))"

text \<open>The entries of a signal list that are entries (BUY) of a given system.\<close>

definition entries_of :: "int \<Rightarrow> Signal list \<Rightarrow> Signal list" where
  "entries_of sys sigs = filter (\<lambda>s. signal_type s = BUY \<and> system s = sys) sigs"

text \<open>The cell of column \<open>k\<close> at bar \<open>i\<close> of a computed frame; \<open>None\<close> when the
  computation raised or the column is absent.\<close>

definition cell :: "py_error + frame \<Rightarrow> string \<Rightarrow> nat \<Rightarrow> pyfloat option" where
  "cell res k i = (case res of Inl e \<Rightarrow> None | Inr df \<Rightarrow> map_option (\<lambda>col. col ! i) (columns df k))"

text \<open>Concrete price series: two rising bars, and \<open>n\<close> identical bars.\<close>

definition two_bars :: frame where
  "two_bars = \<lparr>index = [0, 1], columns =
     [''open'' \<mapsto> [Val 10, Val 11], ''high'' \<mapsto> [Val 12, Val 13], ''low'' \<mapsto> [Val 9, Val 10],
      ''close'' \<mapsto> [Val 11, Val 12], ''volume'' \<mapsto> [Val 1000, Val 1000]]\<rparr>"

definition flat_bars :: "nat \<Rightarrow> frame" where
  "flat_bars n = \<lparr>index = [0..<n], columns =
     [''open'' \<mapsto> replicate n (Val 10), ''high'' \<mapsto> replicate n (Val 12), ''low'' \<mapsto> replicate n (Val 9),
      ''close'' \<mapsto> replicate n (Val 11), ''volume'' \<mapsto> replicate n (Val 1000)]\<rparr>"

text \<open>The series \<open>two_bars\<close> with a different second bar.\<close>

definition spiked_bars :: frame where
  "spiked_bars = \<lparr>index = [0, 1], columns =
     [''open'' \<mapsto> [Val 10, Val 30], ''high'' \<mapsto> [Val 12, Val 40], ''low'' \<mapsto> [Val 9, Val 20],
      ''close'' \<mapsto> [Val 11, Val 35], ''volume'' \<mapsto> [Val 1000, Val 5000]]\<rparr>"

text \<open>Two bars whose high lies below their low: the OHLC ordering is violated.\<close>

definition inverted_bars :: frame where
  "inverted_bars = \<lparr>index = [0, 1], columns =
     [''open'' \<mapsto> [Val 10, Val 10], ''high'' \<mapsto> [Val 9, Val 9], ''low'' \<mapsto> [Val 12, Val 12],
      ''close'' \<mapsto> [Val 11, Val 11], ''volume'' \<mapsto> [Val 1000, Val 1000]]\<rparr>"

text \<open>The frame the indicator computation returns, column by column, for a frame \<open>df\<close>
  whose high, low and close columns are \<open>h\<close>, \<open>l\<close> and \<open>c\<close>.\<close>

definition indicator_frame :: "frame \<Rightarrow> pyfloat list \<Rightarrow> pyfloat list \<Rightarrow> pyfloat list \<Rightarrow> frame" where
  "indicator_frame df h l c = \<lparr>index = index df, columns = (\<lambda>k.
     if k \<in> set temp_cols then None
     else if k = ''donchian_high_10'' then Some (rolling 10 max_obs h)
     else if k = ''donchian_low_10'' then Some (rolling 10 min_obs l)
     else if k = ''donchian_high_20'' then Some (rolling 20 max_obs h)
     else if k = ''donchian_low_20'' then Some (rolling 20 min_obs l)
     else if k = ''donchian_high_55'' then Some (rolling 55 max_obs h)
     else if k = ''donchian_low_55'' then Some (rolling 55 min_obs l)
     else if k = ''true_range'' then Some (true_range_of h l c)
     else if k = ''atr_10'' then Some (rolling 10 mean (true_range_of h l c))
     else if k = ''atr_20'' then Some (rolling 20 mean (true_range_of h l c))
     else if k = ''atr_30'' then Some (rolling 30 mean (true_range_of h l c))
     else if k = ''sma_10'' then Some (rolling 10 mean c)
     else if k = ''sma_20'' then Some (rolling 20 mean c)
     else if k = ''sma_50'' then Some (rolling 50 mean c)
     else if k = ''sma_200'' then Some (rolling 200 mean c)
     else if k = ''returns'' then Some (pct_change c)
     else if k = ''volatility_10'' then Some (rolling 10 annualized_std (pct_change c))
     else if k = ''volatility_20'' then Some (rolling 20 annualized_std (pct_change c))
     else if k = ''volatility_30'' then Some (rolling 30 annualized_std (pct_change c))
     else columns df k)\<rparr>"

text \<open>Fifty-five bars of an instrument that traded flat at 100 and closes the last bar at
  130, with the indicator columns the engine reads, as computed from the flat history (the
  recipe of the repository's breakout test: compute the indicators, then overwrite the last
  close).\<close>

definition breakout_frame :: frame where
  "breakout_frame = \<lparr>index = [0..<55], columns =
     [''close'' \<mapsto> replicate 54 (Val 100) @ [Val 130],
      ''donchian_high_20'' \<mapsto> replicate 19 NaN @ replicate 36 (Val 100),
      ''donchian_low_20'' \<mapsto> replicate 19 NaN @ replicate 36 (Val 100),
      ''donchian_high_55'' \<mapsto> replicate 54 NaN @ [Val 100],
      ''donchian_low_55'' \<mapsto> replicate 54 NaN @ [Val 100],
      ''donchian_low_10'' \<mapsto> replicate 9 NaN @ replicate 46 (Val 100),
      ''atr_20'' \<mapsto> replicate 19 NaN @ replicate 36 (Val 0)]\<rparr>"


text \<open>What a test reads off a signal: its type, system, price and stop price.\<close>

definition signal_brief :: "Signal \<Rightarrow> SignalType \<times> int \<times> pyfloat \<times> pyfloat option" where
  "signal_brief s = (signal_type s, system s, price s, stop_price s)"

text \<open>The ATR the engine reads for the latest bar: the last cell of the ATR column of the
  configured period, and 0 when the frame has no such column.\<close>

definition latest_atr :: "TradingConfig \<Rightarrow> frame \<Rightarrow> pyfloat" where
  "latest_atr cfg df = row_get (row_at df (len df - 1)) (''atr_'' @ str_int (atr_period cfg)) (Val 0)"

text \<open>The frame \<open>breakout_frame\<close> without the low channel of the 20-bar window.\<close>

definition unpaired_frame :: frame where
  "unpaired_frame = drop_cols breakout_frame [''donchian_low_20'']"

text \<open>The frame \<open>breakout_frame\<close> with the last close back at 100, the channel high.\<close>

definition touch_frame :: frame where
  "touch_frame = set_col breakout_frame ''close'' (replicate 55 (Val 100))"

text \<open>What an instrument contributes in a batch: the signal list computed for it, and
  nothing when the computation raised (the exception is caught and the instrument skipped).\<close>

definition produced :: "TradingConfig \<Rightarrow> string \<Rightarrow> frame \<Rightarrow> Signal list" where
  "produced cfg smb df = (case generate_symbol_signals cfg smb df of Inl e \<Rightarrow> [] | Inr sigs \<Rightarrow> sigs)"

text \<open>A sequence of calls on one engine object.\<close>

definition run_ops :: "engine_op list \<Rightarrow> SignalEngine \<Rightarrow> SignalEngine" where
  "run_ops ops eng = fold engine_step ops eng"

text \<open>An engine that has recorded signals for two instruments, and a batch of two frames.\<close>

definition seasoned_engine :: SignalEngine where
  "seasoned_engine = \<lparr>config = default_trading, last_signals =
     [(''OLD'', [exit_signal ''OLD'' 7 (Val 50) 1]), (''FLAT'', [exit_signal ''FLAT'' 7 (Val 90) 2])]\<rparr>"

definition batch :: "(string \<times> frame) list" where
  "batch = [(''TEST'', breakout_frame), (''FLAT'', touch_frame)]"

text \<open>A session on one engine: a batch with a breakout, a summary, a batch without signals.\<close>

definition session_ops :: "engine_op list" where
  "session_ops = [GenerateSignals [(''TEST'', breakout_frame)], GetSignalSummary,
     GenerateSignals [(''TEST'', touch_frame), (''FLAT'', touch_frame)]]"

text \<open>The largest finite float64, and a bound on the magnitude of prices under which no
  operation of the true range or of a 10-, 20- or 30-bar average overflows: a true range is
  then at most twice the bound, and a sum of up to 32 of them stays below \<open>float_max\<close>.\<close>

definition float_max :: real where
  "float_max = (2 - 1 / 2 ^ 52) * 2 ^ 1023"

definition price_bound :: real where
  "price_bound = 2 ^ 1000"

text \<open>Every high, low and close of the frame has a magnitude of at most \<open>price_bound\<close>.\<close>

definition bounded_prices :: "frame \<Rightarrow> bool" where
  "bounded_prices df =
     (\<forall>k \<in> set [''high'', ''low'', ''close''].
        \<forall>col. columns df k = Some col \<longrightarrow> (\<forall>x \<in> set (observations col). \<bar>x\<bar> \<le> price_bound))"

section \<open>Facts about the building blocks\<close>

lemma str_nat_10: "str_nat 10 = ''10''"
  by (simp add: str_nat.simps [of 10] str_nat.simps [of "Suc 0"] digit_char_def)

lemma str_nat_20: "str_nat 20 = ''20''"
  by (simp add: str_nat.simps [of 20] str_nat.simps [of 2] digit_char_def)

lemma str_nat_30: "str_nat 30 = ''30''"
  by (simp add: str_nat.simps [of 30] str_nat.simps [of 3] digit_char_def)

lemma str_nat_50: "str_nat 50 = ''50''"
  by (simp add: str_nat.simps [of 50] str_nat.simps [of 5] digit_char_def)

lemma str_nat_55: "str_nat 55 = ''55''"
  by (simp add: str_nat.simps [of 55] str_nat.simps [of 5] digit_char_def)

lemma str_nat_200: "str_nat 200 = ''200''"
  by (simp add: str_nat.simps [of 200] str_nat.simps [of 20] str_nat.simps [of 2] digit_char_def)

lemmas str_nat_literals = str_nat_10 str_nat_20 str_nat_30 str_nat_50 str_nat_55 str_nat_200

subsection \<open>Frames and sequencing\<close>

lemma bind_err_simps [simp]:
  "bind_err (Inr x) f = f x" "bind_err (Inl e) f = Inl e"
  by (simp_all add: bind_err_def)

lemma columns_set_col [simp]:
  "columns (set_col df k col) k' = (if k' = k then Some col else columns df k')"
  by (simp add: set_col_def)

lemma index_set_col [simp]: "index (set_col df k col) = index df"
  by (simp add: set_col_def)

lemma columns_drop_cols [simp]:
  "columns (drop_cols df ks) k = (if k \<in> set ks then None else columns df k)"
  by (simp add: drop_cols_def)

lemma index_drop_cols [simp]: "index (drop_cols df ks) = index df"
  by (simp add: drop_cols_def)

lemma get_col_Some [simp]: "columns df k = Some col \<Longrightarrow> get_col df k = Inr col"
  by (simp add: get_col_def)

lemma get_col_None [simp]: "columns df k = None \<Longrightarrow> get_col df k = Inl KeyError"
  by (simp add: get_col_def)

lemma assign1_Some: "columns df a = Some xs \<Longrightarrow> assign1 k f a df = Inr (set_col df k (f xs))"
  by (simp add: assign1_def)

lemma assign1_None: "columns df a = None \<Longrightarrow> assign1 k f a df = Inl KeyError"
  by (simp add: assign1_def)

lemma assign2_Some:
  "columns df a = Some xs \<Longrightarrow> columns df b = Some ys \<Longrightarrow> assign2 k f a b df = Inr (set_col df k (f xs ys))"
  by (simp add: assign2_def)

lemma cti_columns:
  assumes "columns df ''high'' = Some h" "columns df ''low'' = Some l" "columns df ''close'' = Some c"
  shows "\<exists>r. calculate_technical_indicators df = Inr r \<and> index r = index df
     \<and> columns r ''donchian_high_10'' = Some (rolling 10 max_obs h)
     \<and> columns r ''donchian_high_20'' = Some (rolling 20 max_obs h)
     \<and> columns r ''donchian_high_55'' = Some (rolling 55 max_obs h)
     \<and> columns r ''donchian_low_10'' = Some (rolling 10 min_obs l)
     \<and> columns r ''donchian_low_20'' = Some (rolling 20 min_obs l)
     \<and> columns r ''donchian_low_55'' = Some (rolling 55 min_obs l)
     \<and> columns r ''true_range'' = Some (true_range_of h l c)
     \<and> columns r ''atr_10'' = Some (rolling 10 mean (true_range_of h l c))
     \<and> columns r ''atr_20'' = Some (rolling 20 mean (true_range_of h l c))
     \<and> columns r ''atr_30'' = Some (rolling 30 mean (true_range_of h l c))
     \<and> columns r ''sma_10'' = Some (rolling 10 mean c)
     \<and> columns r ''sma_20'' = Some (rolling 20 mean c)
     \<and> columns r ''sma_50'' = Some (rolling 50 mean c)
     \<and> columns r ''sma_200'' = Some (rolling 200 mean c)
     \<and> columns r ''returns'' = Some (pct_change c)
     \<and> columns r ''volatility_10'' = Some (rolling 10 annualized_std (pct_change c))
     \<and> columns r ''volatility_20'' = Some (rolling 20 annualized_std (pct_change c))
     \<and> columns r ''volatility_30'' = Some (rolling 30 annualized_std (pct_change c))
     \<and> (\<forall>k \<in> set temp_cols. columns r k = None)
     \<and> (\<forall>k. k \<notin> set indicator_names \<and> k \<notin> set temp_cols \<longrightarrow> columns r k = columns df k)"
  using assms
  by (simp add: calculate_technical_indicators_def true_range_step_def max_of_tr_def
      assign1_Some assign2_Some str_nat_literals true_range_of_def temp_cols_def indicator_names_def)

lemma cti_KeyError:
  assumes "columns df ''high'' = None \<or> columns df ''low'' = None \<or> columns df ''close'' = None"
  shows "calculate_technical_indicators df = Inl KeyError"
proof (cases "columns df ''high''")
  case None
  then show ?thesis
    by (simp add: calculate_technical_indicators_def assign1_None)
next
  case hi: (Some h)
  show ?thesis
  proof (cases "columns df ''low''")
    case None
    with hi show ?thesis
      by (simp add: calculate_technical_indicators_def assign1_Some assign1_None str_nat_literals)
  next
    case lo: (Some l)
    with hi assms have "columns df ''close'' = None" by simp
    with hi lo show ?thesis
      by (simp add: calculate_technical_indicators_def assign1_Some assign1_None str_nat_literals
          true_range_step_def)
  qed
qed

subsection \<open>Rolling windows and the true range\<close>

lemma length_rolling [simp]: "length (rolling w agg xs) = length xs"
  by (simp add: rolling_def)

lemma rolling_nth:
  "i < length xs \<Longrightarrow> rolling w agg xs ! i =
     (if length (observations (window_at w xs i)) < w then NaN
      else Val (agg (observations (window_at w xs i))))"
  by (simp add: rolling_def Let_def)

lemma length_observations_le: "length (observations xs) \<le> length xs"
  by (induction xs rule: observations.induct) auto

lemma length_observations_full: "NaN \<notin> set xs \<Longrightarrow> length (observations xs) = length xs"
  by (induction xs rule: observations.induct) auto

lemma length_observations_nan: "NaN \<in> set xs \<Longrightarrow> length (observations xs) < length xs"
  using length_observations_le
  by (induction xs rule: observations.induct) (auto simp: less_Suc_eq_le)

lemma length_window_at: "i < length xs \<Longrightarrow> length (window_at w xs i) = min (Suc i) w"
  by (auto simp: window_at_def)

lemma set_window_at: "set (window_at w xs i) \<subseteq> set xs"
  unfolding window_at_def by (meson set_drop_subset set_take_subset subset_trans)

lemma rolling_warmup: "i < length xs \<Longrightarrow> Suc i < w \<Longrightarrow> rolling w agg xs ! i = NaN"
  using length_observations_le [of "window_at w xs i"]
  by (simp add: rolling_nth length_window_at)

lemma rolling_defined:
  assumes "i < length xs" "w \<le> Suc i" "NaN \<notin> set (window_at w xs i)"
  shows "rolling w agg xs ! i = Val (agg (observations (window_at w xs i)))"
  using assms by (simp add: rolling_nth length_observations_full length_window_at)

lemma rolling_nan_in_window:
  assumes "i < length xs" "NaN \<in> set (window_at w xs i)"
  shows "rolling w agg xs ! i = NaN"
proof -
  have "length (observations (window_at w xs i)) < length (window_at w xs i)"
    using assms(2) by (rule length_observations_nan)
  also have "\<dots> \<le> w" using assms(1) by (simp add: length_window_at)
  finally show ?thesis using assms(1) by (simp add: rolling_nth)
qed

lemma window_at_take: "Suc i \<le> n \<Longrightarrow> window_at w (take n xs) i = window_at w xs i"
  by (simp add: window_at_def min_def)

lemma take_rolling: "take n (rolling w agg xs) = rolling w agg (take n xs)"
  by (rule nth_equalityI) (auto simp: rolling_nth window_at_take)

lemma take_Cons_take: "m \<le> n \<Longrightarrow> take m (a # take n xs) = take m (a # xs)"
  by (cases m) (simp_all add: min_def)

lemma take_shift1: "take n (shift1 xs) = shift1 (take n xs)"
proof -
  have "take n (shift1 xs) = take (min n (length xs)) (NaN # xs)"
    by (simp add: shift1_def)
  also have "\<dots> = take (min n (length xs)) (NaN # take n xs)"
    by (simp add: take_Cons_take)
  also have "\<dots> = shift1 (take n xs)"
    by (simp add: shift1_def min.commute)
  finally show ?thesis .
qed

lemma take_map2: "take n (map2 f xs ys) = map2 f (take n xs) (take n ys)"
  by (simp add: take_map take_zip)

lemma take_max_axis1: "take n (max_axis1 as bs cs) = max_axis1 (take n as) (take n bs) (take n cs)"
  by (simp add: max_axis1_def take_map take_zip)

lemma take_pct_change: "take n (pct_change xs) = pct_change (take n xs)"
  by (simp add: pct_change_def take_map take_zip take_shift1)

lemma take_true_range_of:
  "take n (true_range_of h l c) = true_range_of (take n h) (take n l) (take n c)"
  by (simp add: true_range_of_def take_max_axis1 take_map take_zip take_shift1)

lemma max_obs_Max:
  assumes "xs \<noteq> []"
  shows "max_obs xs = Max (set xs)"
proof (cases xs)
  case Nil
  then show ?thesis using assms by simp
next
  case (Cons a list)
  then show ?thesis using Max.set_eq_fold [of a list] by (simp del: set_simps)
qed

lemma window_at_first: "0 < w \<Longrightarrow> window_at w xs (w - 1) = take w xs"
  by (simp add: window_at_def)

lemma observations_all_Val: "NaN \<notin> set xs \<Longrightarrow> map Val (observations xs) = xs"
  by (induction xs rule: observations.induct) auto

lemma length_true_range_of:
  "length l = length h \<Longrightarrow> length c = length h \<Longrightarrow> length (true_range_of h l c) = length h"
  by (simp add: true_range_of_def max_axis1_def shift1_def)

lemma row_max3_Val: "row_max3 (Val a) b c \<noteq> NaN"
  by (simp add: row_max3_def)

lemma row_max3_first_bar: "row_max3 (Val a) NaN NaN = Val a"
  by (simp add: row_max3_def)

lemma true_range_of_nth:
  assumes "i < length h" "length l = length h" "length c = length h"
  shows "true_range_of h l c ! i =
     row_max3 (fsub (h ! i) (l ! i)) (fabs (fsub (h ! i) (shift1 c ! i))) (fabs (fsub (l ! i) (shift1 c ! i)))"
  using assms by (simp add: true_range_of_def max_axis1_def shift1_def)

lemma shift1_0: "xs \<noteq> [] \<Longrightarrow> shift1 xs ! 0 = NaN"
  by (cases xs) (simp_all add: shift1_def)

lemma Val_of_not_NaN: "x \<noteq> NaN \<Longrightarrow> \<exists>v. x = Val v"
  by (cases x) auto

lemma true_range_of_defined:
  assumes "i < length h" "length l = length h" "length c = length h" "NaN \<notin> set h" "NaN \<notin> set l"
  shows "true_range_of h l c ! i \<noteq> NaN"
proof -
  from assms obtain a b where "h ! i = Val a" "l ! i = Val b"
    by (metis Val_of_not_NaN nth_mem)
  then show ?thesis using assms by (simp add: true_range_of_nth row_max3_Val)
qed

lemma true_range_of_bar0:
  assumes "h \<noteq> []" "length l = length h" "length c = length h" "h ! 0 = Val a" "l ! 0 = Val b"
  shows "true_range_of h l c ! 0 = Val (a - b)"
proof -
  from assms have "c \<noteq> []" by auto
  then have "shift1 c ! 0 = NaN" by (rule shift1_0)
  with assms show ?thesis by (simp add: true_range_of_nth row_max3_first_bar)
qed

subsection \<open>Price series\<close>

lemma price_seriesD:
  assumes "price_series df"
  shows "\<exists>h l c. columns df ''high'' = Some h \<and> columns df ''low'' = Some l \<and> columns df ''close'' = Some c
    \<and> length h = len df \<and> length l = len df \<and> length c = len df
    \<and> NaN \<notin> set h \<and> NaN \<notin> set l \<and> NaN \<notin> set c"
  using assms unfolding price_series_def wf_frame_def len_def by fastforce

lemma price_series_two_bars: "price_series two_bars"
  by (simp add: price_series_def wf_frame_def two_bars_def)

lemma price_series_flat_bars: "price_series (flat_bars n)"
  by (simp add: price_series_def wf_frame_def flat_bars_def)

lemma rolling_table:
  assumes "NaN \<notin> set xs" "0 < w"
  shows "\<forall>i < length xs. (Suc i < w \<longrightarrow> rolling w agg xs ! i = NaN)
          \<and> (w \<le> Suc i \<longrightarrow> rolling w agg xs ! i \<noteq> NaN)"
proof (intro allI impI conjI)
  fix i assume "i < length xs" "Suc i < w"
  then show "rolling w agg xs ! i = NaN" by (rule rolling_warmup)
next
  fix i assume i: "i < length xs" "w \<le> Suc i"
  have "NaN \<notin> set (window_at w xs i)"
    using assms(1) set_window_at [of w xs i] by blast
  with i show "rolling w agg xs ! i \<noteq> NaN" by (simp add: rolling_defined)
qed

section \<open>The computed frame in closed form\<close>

lemma frame_eqI:
  fixes a b :: frame
  assumes "index a = index b" "\<And>k. columns a k = columns b k"
  shows "a = b"
proof -
  from assms(2) have "columns a = columns b" by (rule ext)
  with assms(1) show ?thesis by simp
qed

lemma columns_indicator_frame_named:
  "columns (indicator_frame df h l c) ''donchian_high_10'' = Some (rolling 10 max_obs h)"
  "columns (indicator_frame df h l c) ''donchian_high_20'' = Some (rolling 20 max_obs h)"
  "columns (indicator_frame df h l c) ''donchian_high_55'' = Some (rolling 55 max_obs h)"
  "columns (indicator_frame df h l c) ''donchian_low_10'' = Some (rolling 10 min_obs l)"
  "columns (indicator_frame df h l c) ''donchian_low_20'' = Some (rolling 20 min_obs l)"
  "columns (indicator_frame df h l c) ''donchian_low_55'' = Some (rolling 55 min_obs l)"
  "columns (indicator_frame df h l c) ''true_range'' = Some (true_range_of h l c)"
  "columns (indicator_frame df h l c) ''atr_10'' = Some (rolling 10 mean (true_range_of h l c))"
  "columns (indicator_frame df h l c) ''atr_20'' = Some (rolling 20 mean (true_range_of h l c))"
  "columns (indicator_frame df h l c) ''atr_30'' = Some (rolling 30 mean (true_range_of h l c))"
  "columns (indicator_frame df h l c) ''sma_10'' = Some (rolling 10 mean c)"
  "columns (indicator_frame df h l c) ''sma_20'' = Some (rolling 20 mean c)"
  "columns (indicator_frame df h l c) ''sma_50'' = Some (rolling 50 mean c)"
  "columns (indicator_frame df h l c) ''sma_200'' = Some (rolling 200 mean c)"
  "columns (indicator_frame df h l c) ''returns'' = Some (pct_change c)"
  "columns (indicator_frame df h l c) ''volatility_10'' = Some (rolling 10 annualized_std (pct_change c))"
  "columns (indicator_frame df h l c) ''volatility_20'' = Some (rolling 20 annualized_std (pct_change c))"
  "columns (indicator_frame df h l c) ''volatility_30'' = Some (rolling 30 annualized_std (pct_change c))"
  by (simp_all add: indicator_frame_def temp_cols_def)

lemma columns_indicator_frame_temp:
  "k \<in> set temp_cols \<Longrightarrow> columns (indicator_frame df h l c) k = None"
  by (simp add: indicator_frame_def)

lemma columns_indicator_frame_other:
  "k \<notin> set temp_cols \<Longrightarrow> k \<notin> set indicator_names \<Longrightarrow> columns (indicator_frame df h l c) k = columns df k"
  by (simp add: indicator_frame_def indicator_names_def)

lemma index_indicator_frame [simp]: "index (indicator_frame df h l c) = index df"
  by (simp add: indicator_frame_def)

lemma cti_eq:
  assumes cols: "columns df ''high'' = Some h" "columns df ''low'' = Some l" "columns df ''close'' = Some c"
  shows "calculate_technical_indicators df = Inr (indicator_frame df h l c)"
proof -
  from cti_columns [OF cols] obtain r where r: "calculate_technical_indicators df = Inr r"
    and rest: "index r = index df
     \<and> columns r ''donchian_high_10'' = Some (rolling 10 max_obs h)
     \<and> columns r ''donchian_high_20'' = Some (rolling 20 max_obs h)
     \<and> columns r ''donchian_high_55'' = Some (rolling 55 max_obs h)
     \<and> columns r ''donchian_low_10'' = Some (rolling 10 min_obs l)
     \<and> columns r ''donchian_low_20'' = Some (rolling 20 min_obs l)
     \<and> columns r ''donchian_low_55'' = Some (rolling 55 min_obs l)
     \<and> columns r ''true_range'' = Some (true_range_of h l c)
     \<and> columns r ''atr_10'' = Some (rolling 10 mean (true_range_of h l c))
     \<and> columns r ''atr_20'' = Some (rolling 20 mean (true_range_of h l c))
     \<and> columns r ''atr_30'' = Some (rolling 30 mean (true_range_of h l c))
     \<and> columns r ''sma_10'' = Some (rolling 10 mean c)
     \<and> columns r ''sma_20'' = Some (rolling 20 mean c)
     \<and> columns r ''sma_50'' = Some (rolling 50 mean c)
     \<and> columns r ''sma_200'' = Some (rolling 200 mean c)
     \<and> columns r ''returns'' = Some (pct_change c)
     \<and> columns r ''volatility_10'' = Some (rolling 10 annualized_std (pct_change c))
     \<and> columns r ''volatility_20'' = Some (rolling 20 annualized_std (pct_change c))
     \<and> columns r ''volatility_30'' = Some (rolling 30 annualized_std (pct_change c))
     \<and> (\<forall>k \<in> set temp_cols. columns r k = None)
     \<and> (\<forall>k. k \<notin> set indicator_names \<and> k \<notin> set temp_cols \<longrightarrow> columns r k = columns df k)"
    by (elim exE conjE) (intro that conjI; assumption)
  have "r = indicator_frame df h l c"
  proof (rule frame_eqI)
    show "index r = index (indicator_frame df h l c)" using rest by simp
    fix k
    consider (temp) "k \<in> set temp_cols" | (named) "k \<in> set indicator_names"
      | (other) "k \<notin> set temp_cols" "k \<notin> set indicator_names" by blast
    then show "columns r k = columns (indicator_frame df h l c) k"
    proof cases
      case temp
      with rest show ?thesis by (simp add: columns_indicator_frame_temp)
    next
      case named
      then have "k = ''donchian_high_10'' \<or> k = ''donchian_low_10'' \<or> k = ''donchian_high_20''
        \<or> k = ''donchian_low_20'' \<or> k = ''donchian_high_55'' \<or> k = ''donchian_low_55''
        \<or> k = ''true_range'' \<or> k = ''atr_10'' \<or> k = ''atr_20'' \<or> k = ''atr_30''
        \<or> k = ''sma_10'' \<or> k = ''sma_20'' \<or> k = ''sma_50'' \<or> k = ''sma_200'' \<or> k = ''returns''
        \<or> k = ''volatility_10'' \<or> k = ''volatility_20'' \<or> k = ''volatility_30''"
        by (simp add: indicator_names_def)
      then show ?thesis
        using rest by (elim disjE) (simp_all only: columns_indicator_frame_named)
    next
      case other
      with rest show ?thesis by (simp add: columns_indicator_frame_other)
    qed
  qed
  with r show ?thesis by simp
qed

section \<open>The Donchian window boundary\<close>

lemma str_nat_25: "str_nat 25 = ''25''"
  by (simp add: str_nat.simps [of 25] str_nat.simps [of 2] digit_char_def)

text \<open>
  C9 as stated fails for a window the computation does not provide. The breakout length is
  configurable, but the indicator computation writes Donchian columns for the windows 10, 20
  and 55 only: for window 25 the frame computed from a price series of 60 bars has no
  \<open>donchian_high_25\<close> column, so the channel high has no value at bar 24 or at any later bar.
\<close>

theorem donchian_window_25_counterexample:
  "price_series (flat_bars 60)
   \<and> map_sum id len (calculate_technical_indicators (flat_bars 60)) = Inr 60
   \<and> ''donchian_high_'' @ str_nat 25 = ''donchian_high_25''
   \<and> cell (calculate_technical_indicators (flat_bars 60)) ''donchian_high_25'' 24 = None
   \<and> cell (calculate_technical_indicators (flat_bars 60)) ''donchian_high_25'' 59 = None"
proof -
  have cols: "columns (flat_bars 60) ''high'' = Some (replicate 60 (Val 12))"
    "columns (flat_bars 60) ''low'' = Some (replicate 60 (Val 9))"
    "columns (flat_bars 60) ''close'' = Some (replicate 60 (Val 11))"
    by (simp_all add: flat_bars_def)
  have "columns (indicator_frame (flat_bars 60) (replicate 60 (Val 12)) (replicate 60 (Val 9))
      (replicate 60 (Val 11))) ''donchian_high_25'' = columns (flat_bars 60) ''donchian_high_25''"
    by (rule columns_indicator_frame_other) (simp_all add: temp_cols_def indicator_names_def)
  also have "\<dots> = None" by (simp add: flat_bars_def)
  finally have none: "columns (indicator_frame (flat_bars 60) (replicate 60 (Val 12))
      (replicate 60 (Val 9)) (replicate 60 (Val 11))) ''donchian_high_25'' = None" .
  have ln: "len (indicator_frame (flat_bars 60) (replicate 60 (Val 12)) (replicate 60 (Val 9))
      (replicate 60 (Val 11))) = 60"
    by (simp add: len_def flat_bars_def)
  show ?thesis
    by (simp add: cti_eq [OF cols] cell_def none ln price_series_flat_bars str_nat_25)
qed

text \<open>
  C9, amended. For every price series and each Donchian window \<open>w\<close> that the indicator
  computation provides, which are 10, 20 and 55, the column \<open>donchian_high_w\<close> is undefined
  (NaN) at every bar \<open>0 .. w-2\<close>, defined at every bar from \<open>w-1\<close> on, and its value at bar
  \<open>w-1\<close> is the maximum of the high values of bars \<open>0 .. w-1\<close>. For no other window does the
  computation produce a Donchian column: outside its fixed list of indicator columns it
  leaves every column of the frame as it was.
\<close>

theorem donchian_high_window_boundary:
  assumes "price_series df" "columns df ''high'' = Some h" "w \<in> {10, 20, 55}"
  shows "\<exists>r dh. calculate_technical_indicators df = Inr r
     \<and> columns r (''donchian_high_'' @ str_nat w) = Some dh \<and> length dh = len df
     \<and> (\<forall>i < len df. (Suc i < w \<longrightarrow> dh ! i = NaN) \<and> (w \<le> Suc i \<longrightarrow> dh ! i \<noteq> NaN))
     \<and> (w \<le> len df \<longrightarrow> dh ! (w - 1) = Val (Max (set (observations (take w h)))))
     \<and> (\<forall>k. k \<notin> set indicator_names \<and> k \<notin> set temp_cols \<longrightarrow> columns r k = columns df k)"
proof -
  from price_seriesD [OF assms(1)] assms(2) obtain l c where
    cols: "columns df ''high'' = Some h" "columns df ''low'' = Some l" "columns df ''close'' = Some c"
    and h: "length h = len df" "NaN \<notin> set h"
    by auto
  from cti_columns [OF cols] obtain r where r: "calculate_technical_indicators df = Inr r"
    and dh: "columns r ''donchian_high_10'' = Some (rolling 10 max_obs h)"
      "columns r ''donchian_high_20'' = Some (rolling 20 max_obs h)"
      "columns r ''donchian_high_55'' = Some (rolling 55 max_obs h)"
    and ro: "\<forall>k. k \<notin> set indicator_names \<and> k \<notin> set temp_cols \<longrightarrow> columns r k = columns df k"
    by blast
  have w: "0 < w" using assms(3) by auto
  have col: "columns r (''donchian_high_'' @ str_nat w) = Some (rolling w max_obs h)"
    using assms(3) dh by (auto simp: str_nat_literals)
  have tab: "\<forall>i < len df. (Suc i < w \<longrightarrow> rolling w max_obs h ! i = NaN)
          \<and> (w \<le> Suc i \<longrightarrow> rolling w max_obs h ! i \<noteq> NaN)"
    using rolling_table [OF h(2) w, of max_obs] h(1) by simp
  have first: "rolling w max_obs h ! (w - 1) = Val (Max (set (observations (take w h))))"
    if "w \<le> len df"
  proof -
    have nn: "NaN \<notin> set (take w h)" using h(2) by (meson in_set_takeD)
    have "length (observations (take w h)) = w"
      using nn that h(1) by (simp add: length_observations_full)
    then have ne: "observations (take w h) \<noteq> []" using w by auto
    have win: "window_at w h (w - 1) = take w h" using w by (rule window_at_first)
    have "rolling w max_obs h ! (w - 1) = Val (max_obs (observations (window_at w h (w - 1))))"
    proof (rule rolling_defined)
      show "w - 1 < length h" using w that h(1) by simp
      show "w \<le> Suc (w - 1)" by simp
      show "NaN \<notin> set (window_at w h (w - 1))" using nn win by simp
    qed
    then show ?thesis using ne win by (simp add: max_obs_Max)
  qed
  show ?thesis
  proof (intro exI conjI)
    show "calculate_technical_indicators df = Inr r" by (rule r)
    show "columns r (''donchian_high_'' @ str_nat w) = Some (rolling w max_obs h)" by (rule col)
    show "length (rolling w max_obs h) = len df" using h(1) by simp
    show "\<forall>i < len df. (Suc i < w \<longrightarrow> rolling w max_obs h ! i = NaN)
          \<and> (w \<le> Suc i \<longrightarrow> rolling w max_obs h ! i \<noteq> NaN)" by (rule tab)
    show "w \<le> len df \<longrightarrow> rolling w max_obs h ! (w - 1) = Val (Max (set (observations (take w h))))"
      using first by blast
    show "\<forall>k. k \<notin> set indicator_names \<and> k \<notin> set temp_cols \<longrightarrow> columns r k = columns df k"
      by (rule ro)
  qed
qed

lemma observations_replicate: "observations (replicate n (Val x)) = replicate n x"
  by (induction n) auto

theorem donchian_high_window_boundary_witness:
  "\<exists>r dh. calculate_technical_indicators (flat_bars 12) = Inr r
     \<and> columns r ''donchian_high_10'' = Some dh \<and> length dh = 12
     \<and> dh ! 8 = NaN \<and> dh ! 9 = Val 12 \<and> dh ! 11 \<noteq> NaN"
proof -
  have hi: "columns (flat_bars 12) ''high'' = Some (replicate 12 (Val 12))"
    by (simp add: flat_bars_def)
  have mx: "Max (set (observations (take 10 (replicate 12 (Val 12))))) = 12"
    by (simp add: observations_replicate)
  have ln: "len (flat_bars 12) = 12" by (simp add: len_def flat_bars_def)
  from donchian_high_window_boundary [OF price_series_flat_bars hi, of 10]
  obtain r dh where r: "calculate_technical_indicators (flat_bars 12) = Inr r"
    and dh: "columns r ''donchian_high_10'' = Some dh" "length dh = 12"
    and tab: "\<forall>i < 12. (Suc i < 10 \<longrightarrow> dh ! i = NaN) \<and> (10 \<le> Suc i \<longrightarrow> dh ! i \<noteq> NaN)"
    and first: "dh ! 9 = Val 12"
    unfolding ln mx str_nat_10 by auto
  from tab have "dh ! 8 = NaN" "dh ! 11 \<noteq> NaN" by simp_all
  with r dh first show ?thesis by blast
qed

section \<open>True range on the first bar\<close>

text \<open>
  C1 as stated fails: on the two-bar series \<open>two_bars\<close> the true range of bar 0 is the number
  \<open>high - low = 3\<close>, not an undefined value. The row maximum over \<open>tr1\<close>, \<open>tr2\<close>, \<open>tr3\<close>
  skips the two cells that depend on the missing previous close.
\<close>

theorem true_range_bar0_counterexample:
  "price_series two_bars \<and> cell (calculate_technical_indicators two_bars) ''true_range'' 0 = Some (Val 3)"
proof -
  have cols: "columns two_bars ''high'' = Some [Val 12, Val 13]"
    "columns two_bars ''low'' = Some [Val 9, Val 10]"
    "columns two_bars ''close'' = Some [Val 11, Val 12]"
    by (simp_all add: two_bars_def)
  from cti_columns [OF cols] obtain r where r: "calculate_technical_indicators two_bars = Inr r"
    and tr: "columns r ''true_range'' = Some (true_range_of [Val 12, Val 13] [Val 9, Val 10] [Val 11, Val 12])"
    by blast
  have "true_range_of [Val 12, Val 13] [Val 9, Val 10] [Val 11, Val 12] ! 0 = Val 3"
    by (simp add: true_range_of_def max_axis1_def shift1_def row_max3_def)
  with r tr show ?thesis by (simp add: cell_def price_series_two_bars)
qed

text \<open>
  C1, amended. For every non-empty price series the computed \<open>true_range\<close> is defined at
  every bar, bar 0 included, where it equals \<open>high - low\<close> of that bar.
\<close>

theorem true_range_defined_everywhere:
  assumes "price_series df" "0 < len df"
    and "columns df ''high'' = Some h" "columns df ''low'' = Some l"
  shows "\<exists>r tr a b. calculate_technical_indicators df = Inr r
     \<and> columns r ''true_range'' = Some tr \<and> length tr = len df
     \<and> (\<forall>i < len df. tr ! i \<noteq> NaN)
     \<and> h ! 0 = Val a \<and> l ! 0 = Val b \<and> tr ! 0 = Val (a - b)"
proof -
  from price_seriesD [OF assms(1)] assms(3,4) obtain c where
    cols: "columns df ''high'' = Some h" "columns df ''low'' = Some l" "columns df ''close'' = Some c"
    and len: "length h = len df" "length l = len df" "length c = len df"
    and nn: "NaN \<notin> set h" "NaN \<notin> set l"
    by auto
  from cti_columns [OF cols] obtain r where r: "calculate_technical_indicators df = Inr r"
    and tr: "columns r ''true_range'' = Some (true_range_of h l c)"
    by blast
  have lh: "length l = length h" "length c = length h" using len by simp_all
  have ne: "h \<noteq> []" using assms(2) len by auto
  from ne nn lh obtain a b where ab: "h ! 0 = Val a" "l ! 0 = Val b"
    by (metis Val_of_not_NaN length_greater_0_conv nth_mem)
  have "true_range_of h l c ! 0 = Val (a - b)"
    using ne lh ab by (rule true_range_of_bar0)
  moreover have "\<forall>i < len df. true_range_of h l c ! i \<noteq> NaN"
    using true_range_of_defined [OF _ lh nn] len by simp
  moreover have "length (true_range_of h l c) = len df"
    using length_true_range_of [OF lh] len by simp
  ultimately show ?thesis using r tr ab by blast
qed

theorem true_range_defined_everywhere_witness:
  "price_series two_bars \<and> 0 < len two_bars
   \<and> cell (calculate_technical_indicators two_bars) ''true_range'' 0 = Some (Val (12 - 9))
   \<and> cell (calculate_technical_indicators two_bars) ''true_range'' 1 \<noteq> Some NaN"
proof -
  have ln: "len two_bars = 2" by (simp add: len_def two_bars_def)
  have cols: "columns two_bars ''high'' = Some [Val 12, Val 13]"
    "columns two_bars ''low'' = Some [Val 9, Val 10]"
    by (simp_all add: two_bars_def)
  from true_range_defined_everywhere [OF price_series_two_bars _ cols]
  obtain r tr where r: "calculate_technical_indicators two_bars = Inr r"
    and tr: "columns r ''true_range'' = Some tr"
    and def: "\<forall>i < 2. tr ! i \<noteq> NaN" and bar0: "tr ! 0 = Val (12 - 9)"
    unfolding ln by auto
  from def have "tr ! 1 \<noteq> NaN" by simp
  with r tr bar0 show ?thesis by (simp add: cell_def price_series_two_bars ln)
qed

section \<open>Warm-up of the average true range\<close>

text \<open>
  C2 as stated fails: on ten identical bars \<open>atr_10\<close> is already defined at bar 9, the last
  bar of the range \<open>0 .. w-1\<close>, because the true range of bar 0 is a number.
\<close>

theorem atr_warmup_counterexample:
  "price_series (flat_bars 10) \<and> cell (calculate_technical_indicators (flat_bars 10)) ''atr_10'' 9 = Some (Val 3)"
proof -
  have cols: "columns (flat_bars 10) ''high'' = Some (replicate 10 (Val 12))"
    "columns (flat_bars 10) ''low'' = Some (replicate 10 (Val 9))"
    "columns (flat_bars 10) ''close'' = Some (replicate 10 (Val 11))"
    by (simp_all add: flat_bars_def)
  from cti_columns [OF cols] obtain r where r: "calculate_technical_indicators (flat_bars 10) = Inr r"
    and atr: "columns r ''atr_10'' = Some (rolling 10 mean
        (true_range_of (replicate 10 (Val 12)) (replicate 10 (Val 9)) (replicate 10 (Val 11))))"
    by blast
  have tr: "true_range_of (replicate 10 (Val 12)) (replicate 10 (Val 9)) (replicate 10 (Val 11))
      = replicate 10 (Val 3)"
    by (simp add: numeral_eq_Suc true_range_of_def max_axis1_def shift1_def row_max3_def)
  have "rolling 10 mean (replicate 10 (Val 3)) ! 9 = Val 3"
    by (simp add: rolling_nth window_at_def observations_replicate mean_def sum_list_replicate)
  with r atr tr show ?thesis by (simp add: cell_def price_series_flat_bars)
qed

text \<open>Magnitudes: with prices bounded by \<open>price_bound\<close>, the true range and the window sums
  of the averages stay within the float64 range.\<close>

lemma price_bound_float_max: "real w \<le> 32 \<Longrightarrow> real w * (2 * price_bound) \<le> float_max"
proof -
  assume w: "real w \<le> 32"
  have "real w * (2 * price_bound) \<le> 32 * (2 * price_bound)"
    using w by (simp add: price_bound_def mult_right_mono)
  also have "\<dots> = (2::real) ^ 1006" by (simp add: price_bound_def)
  also have "\<dots> \<le> 2 ^ 1023" by (rule power_increasing) simp_all
  also have "\<dots> \<le> float_max" by (simp add: float_max_def)
  finally show ?thesis .
qed

lemma small_price_bound: "\<bar>x\<bar> \<le> 16 \<Longrightarrow> \<bar>x\<bar> \<le> price_bound"
proof -
  assume "\<bar>x\<bar> \<le> 16"
  also have "(16::real) = 2 ^ 4" by simp
  also have "\<dots> \<le> 2 ^ 1000" by (rule power_increasing) simp_all
  finally show ?thesis by (simp add: price_bound_def)
qed

lemma observations_mem: "x \<in> set (observations xs) \<longleftrightarrow> Val x \<in> set xs"
  by (induction xs rule: observations.induct) auto

lemma max_obs_mem: "xs \<noteq> [] \<Longrightarrow> max_obs xs \<in> set xs"
  using Max_in [of "set xs"] by (simp add: max_obs_Max)

lemma shift1_nth: "i < length xs \<Longrightarrow> shift1 xs ! i = (if i = 0 then NaN else xs ! (i - 1))"
  by (cases i) (simp_all add: shift1_def)

lemma row_max3_bounded:
  assumes "row_max3 a b c = Val t" "\<forall>x \<in> set (observations [a, b, c]). \<bar>x\<bar> \<le> M"
  shows "\<bar>t\<bar> \<le> M"
proof (cases "observations [a, b, c]")
  case Nil
  with assms(1) show ?thesis by (simp add: row_max3_def)
next
  case (Cons x xs)
  with assms(1) have "t = max_obs (observations [a, b, c])" by (simp add: row_max3_def)
  moreover have "max_obs (observations [a, b, c]) \<in> set (observations [a, b, c])"
    using Cons by (intro max_obs_mem) simp
  ultimately show ?thesis using assms(2) by blast
qed

lemma true_range_of_bounded:
  assumes "i < length h" "length l = length h" "length c = length h"
    and "NaN \<notin> set h" "NaN \<notin> set l"
    and "\<forall>x \<in> set (observations h). \<bar>x\<bar> \<le> B" "\<forall>x \<in> set (observations l). \<bar>x\<bar> \<le> B"
    and "\<forall>x \<in> set (observations c). \<bar>x\<bar> \<le> B"
  shows "\<exists>t. true_range_of h l c ! i = Val t \<and> \<bar>t\<bar> \<le> 2 * B"
proof -
  from assms(1,2,4,5) obtain a b where ab: "h ! i = Val a" "l ! i = Val b"
    by (metis Val_of_not_NaN nth_mem)
  have a: "\<bar>a\<bar> \<le> B" using assms(1,6) ab(1) by (metis observations_mem nth_mem)
  have b: "\<bar>b\<bar> \<le> B" using assms(1,2,7) ab(2) by (metis observations_mem nth_mem)
  have pc: "shift1 c ! i = NaN \<or> (\<exists>p. shift1 c ! i = Val p \<and> \<bar>p\<bar> \<le> B)"
  proof (cases "shift1 c ! i")
    case NaN
    then show ?thesis by simp
  next
    case (Val p)
    with assms(1,3) have "i \<noteq> 0" "c ! (i - 1) = Val p" by (auto simp: shift1_nth split: if_splits)
    moreover have "i - 1 < length c" using assms(1,3) by simp
    ultimately have "Val p \<in> set c" by (metis nth_mem)
    then have "\<bar>p\<bar> \<le> B" using assms(8) by (simp add: observations_mem)
    with Val show ?thesis by simp
  qed
  let ?r = "row_max3 (fsub (h ! i) (l ! i)) (fabs (fsub (h ! i) (shift1 c ! i)))
      (fabs (fsub (l ! i) (shift1 c ! i)))"
  have eq: "true_range_of h l c ! i = ?r" using assms(1-3) by (rule true_range_of_nth)
  have "?r \<noteq> NaN" using ab by (simp add: row_max3_Val)
  then obtain t where t: "?r = Val t" by (meson Val_of_not_NaN)
  have "\<forall>x \<in> set (observations [fsub (h ! i) (l ! i), fabs (fsub (h ! i) (shift1 c ! i)),
      fabs (fsub (l ! i) (shift1 c ! i))]). \<bar>x\<bar> \<le> 2 * B"
    using pc a b ab by auto
  with t have "\<bar>t\<bar> \<le> 2 * B" by (rule row_max3_bounded)
  with eq t show ?thesis by simp
qed

lemma sum_list_bounded:
  "\<forall>x \<in> set xs. \<bar>x\<bar> \<le> (M::real) \<Longrightarrow> \<bar>sum_list xs\<bar> \<le> real (length xs) * M"
proof (induction xs)
  case Nil
  then show ?case by simp
next
  case (Cons x xs)
  then have "\<bar>sum_list xs\<bar> \<le> real (length xs) * M" "\<bar>x\<bar> \<le> M" by simp_all
  then show ?case by (simp add: algebra_simps)
qed

lemma mean_bounded:
  assumes "xs \<noteq> []" "\<forall>x \<in> set xs. \<bar>x\<bar> \<le> (M::real)"
  shows "\<bar>mean xs\<bar> \<le> M"
proof -
  have n: "0 < real (length xs)" using assms(1) by simp
  have "\<bar>mean xs\<bar> = \<bar>sum_list xs\<bar> / real (length xs)" by (simp add: mean_def)
  also have "\<dots> \<le> (real (length xs) * M) / real (length xs)"
    using sum_list_bounded [OF assms(2)] n by (intro divide_right_mono) simp_all
  also have "\<dots> = M" using n by simp
  finally show ?thesis .
qed

lemma bounded_prices_flat_bars: "bounded_prices (flat_bars n)"
proof -
  have "(12::real) \<le> price_bound" "(9::real) \<le> price_bound" "(11::real) \<le> price_bound"
    using small_price_bound [of 12] small_price_bound [of 9] small_price_bound [of 11] by simp_all
  then show ?thesis
    by (auto simp: bounded_prices_def flat_bars_def observations_replicate)
qed

text \<open>
  C2, amended. For every price series whose prices have a magnitude of at most \<open>2^1000\<close>
  (no subtraction or window sum of the computation then leaves the float64 range) and each
  ATR window \<open>w\<close> the computation uses (10, 20 and 30), \<open>atr_w\<close> is undefined (NaN) at
  every bar \<open>0 .. w-2\<close> and defined at every bar from \<open>w-1\<close> on: the true range is
  defined from bar 0, so the first full window ends at bar \<open>w-1\<close>. In exact arithmetic
  every true range and every defined average has a magnitude of at most \<open>2^1001\<close>, and
  every window sum one of at most \<open>float_max\<close>.
\<close>

theorem atr_warmup:
  assumes "price_series df" "bounded_prices df" "w \<in> {10, 20, 30}"
  shows "\<exists>r tr atr. calculate_technical_indicators df = Inr r
     \<and> columns r ''true_range'' = Some tr
     \<and> columns r (''atr_'' @ str_nat w) = Some atr \<and> length atr = len df
     \<and> (\<forall>i < len df. \<exists>t. tr ! i = Val t \<and> \<bar>t\<bar> \<le> 2 * price_bound)
     \<and> (\<forall>i < len df. (Suc i < w \<longrightarrow> atr ! i = NaN)
          \<and> (w \<le> Suc i \<longrightarrow> (\<exists>v. atr ! i = Val v \<and> \<bar>v\<bar> \<le> 2 * price_bound)
                \<and> \<bar>sum_list (observations (window_at w tr i))\<bar> \<le> float_max))"
proof -
  from price_seriesD [OF assms(1)] obtain h l c where
    cols: "columns df ''high'' = Some h" "columns df ''low'' = Some l" "columns df ''close'' = Some c"
    and len: "length h = len df" "length l = len df" "length c = len df"
    and nn: "NaN \<notin> set h" "NaN \<notin> set l"
    by auto
  from assms(2) cols have bd: "\<forall>x \<in> set (observations h). \<bar>x\<bar> \<le> price_bound"
    "\<forall>x \<in> set (observations l). \<bar>x\<bar> \<le> price_bound"
    "\<forall>x \<in> set (observations c). \<bar>x\<bar> \<le> price_bound"
    by (simp_all add: bounded_prices_def)
  let ?tr = "true_range_of h l c"
  have r: "calculate_technical_indicators df = Inr (indicator_frame df h l c)"
    by (rule cti_eq [OF cols])
  have w: "0 < w" "real w \<le> 32" using assms(3) by auto
  have col: "columns (indicator_frame df h l c) (''atr_'' @ str_nat w) = Some (rolling w mean ?tr)"
    using assms(3) by (auto simp: str_nat_literals columns_indicator_frame_named)
  have lh: "length l = length h" "length c = length h" using len by simp_all
  have ltr: "length ?tr = len df"
    using length_true_range_of [OF lh] len by simp
  have trb: "\<exists>t. ?tr ! i = Val t \<and> \<bar>t\<bar> \<le> 2 * price_bound" if "i < len df" for i
    using true_range_of_bounded [OF _ lh nn bd] that len by simp
  have trnn: "NaN \<notin> set ?tr"
  proof
    assume "NaN \<in> set ?tr"
    then obtain i where "i < length ?tr" "?tr ! i = NaN" by (metis in_set_conv_nth)
    with trb [of i] ltr show False by auto
  qed
  have obs: "\<bar>x\<bar> \<le> 2 * price_bound" if "x \<in> set (observations ?tr)" for x
  proof -
    from that have "Val x \<in> set ?tr" by (simp add: observations_mem)
    then obtain i where "i < length ?tr" "?tr ! i = Val x" by (metis in_set_conv_nth)
    with trb [of i] ltr show ?thesis by auto
  qed
  have tail: "(\<exists>v. rolling w mean ?tr ! i = Val v \<and> \<bar>v\<bar> \<le> 2 * price_bound)
      \<and> \<bar>sum_list (observations (window_at w ?tr i))\<bar> \<le> float_max"
    if i: "i < len df" "w \<le> Suc i" for i
  proof -
    let ?o = "observations (window_at w ?tr i)"
    have wn: "NaN \<notin> set (window_at w ?tr i)" using trnn set_window_at [of w ?tr i] by blast
    have lo: "length ?o = w"
      using wn i ltr by (simp add: length_observations_full length_window_at)
    have ob: "\<forall>x \<in> set ?o. \<bar>x\<bar> \<le> 2 * price_bound"
      using obs set_window_at [of w ?tr i] by (auto simp: observations_mem)
    have ne: "?o \<noteq> []" using lo w(1) by auto
    have v: "rolling w mean ?tr ! i = Val (mean ?o)"
      using i ltr wn by (intro rolling_defined) simp_all
    have "\<bar>sum_list ?o\<bar> \<le> real w * (2 * price_bound)"
      using sum_list_bounded [OF ob] lo by simp
    also have "\<dots> \<le> float_max" using w(2) by (rule price_bound_float_max)
    finally have "\<bar>sum_list ?o\<bar> \<le> float_max" .
    with v mean_bounded [OF ne ob] show ?thesis by simp
  qed
  have warm: "rolling w mean ?tr ! i = NaN" if "i < len df" "Suc i < w" for i
    using that ltr by (simp add: rolling_warmup)
  show ?thesis
  proof (intro exI conjI)
    show "calculate_technical_indicators df = Inr (indicator_frame df h l c)" by (rule r)
    show "columns (indicator_frame df h l c) ''true_range'' = Some ?tr"
      by (simp add: columns_indicator_frame_named)
    show "columns (indicator_frame df h l c) (''atr_'' @ str_nat w) = Some (rolling w mean ?tr)"
      by (rule col)
    show "length (rolling w mean ?tr) = len df" using ltr by simp
    show "\<forall>i < len df. \<exists>t. ?tr ! i = Val t \<and> \<bar>t\<bar> \<le> 2 * price_bound" using trb by blast
    show "\<forall>i < len df. (Suc i < w \<longrightarrow> rolling w mean ?tr ! i = NaN)
          \<and> (w \<le> Suc i \<longrightarrow> (\<exists>v. rolling w mean ?tr ! i = Val v \<and> \<bar>v\<bar> \<le> 2 * price_bound)
                \<and> \<bar>sum_list (observations (window_at w ?tr i))\<bar> \<le> float_max)"
      using warm tail by blast
  qed
qed

theorem atr_warmup_witness:
  "price_series (flat_bars 10) \<and> bounded_prices (flat_bars 10)
   \<and> cell (calculate_technical_indicators (flat_bars 10)) ''atr_10'' 8 = Some NaN
   \<and> cell (calculate_technical_indicators (flat_bars 10)) ''atr_10'' 9 \<noteq> Some NaN"
proof -
  have ln: "len (flat_bars 10) = 10" by (simp add: len_def flat_bars_def)
  from atr_warmup [OF price_series_flat_bars bounded_prices_flat_bars, of 10 10]
  obtain r atr where r: "calculate_technical_indicators (flat_bars 10) = Inr r"
    and atr: "columns r ''atr_10'' = Some atr"
    and tab: "\<forall>i < 10. (Suc i < 10 \<longrightarrow> atr ! i = NaN)
          \<and> (10 \<le> Suc i \<longrightarrow> (\<exists>v. atr ! i = Val v \<and> \<bar>v\<bar> \<le> 2 * price_bound))"
    unfolding ln str_nat_10 by auto
  from tab [rule_format, of 8] have a8: "atr ! 8 = NaN" by simp
  from tab [rule_format, of 9] have a9: "atr ! 9 \<noteq> NaN" by auto
  from a8 a9 r atr show ?thesis
    by (simp add: cell_def price_series_flat_bars bounded_prices_flat_bars)
qed

section \<open>Truncation of frames\<close>

lemma columns_head_rows [simp]: "columns (head_rows n df) k = map_option (take n) (columns df k)"
  by (simp add: head_rows_def)

lemma index_head_rows [simp]: "index (head_rows n df) = take n (index df)"
  by (simp add: head_rows_def)

lemma take_Suc_nth_eq:
  assumes "take (Suc i) xs = take (Suc i) ys"
  shows "xs ! i = ys ! i"
proof (cases "i < length xs")
  case True
  from assms have "length (take (Suc i) xs) = length (take (Suc i) ys)" by simp
  with True have "i < length ys" by (simp add: min_def split: if_splits)
  have "xs ! i = take (Suc i) xs ! i" by simp
  also have "\<dots> = take (Suc i) ys ! i" using assms by simp
  also have "\<dots> = ys ! i" by simp
  finally show ?thesis .
next
  case False
  from assms have "length (take (Suc i) xs) = length (take (Suc i) ys)" by simp
  with False have "length ys \<le> i" by (simp add: min_def split: if_splits)
  with False assms show ?thesis by simp
qed

lemma row_at_head_rows:
  assumes "head_rows (Suc i) r1 = head_rows (Suc i) r2"
  shows "row_at r1 i = row_at r2 i"
proof
  fix k
  from assms have "columns (head_rows (Suc i) r1) k = columns (head_rows (Suc i) r2) k" by simp
  then have eq: "map_option (take (Suc i)) (columns r1 k) = map_option (take (Suc i)) (columns r2 k)"
    by simp
  show "row_at r1 i k = row_at r2 i k"
  proof (cases "columns r1 k")
    case None
    with eq show ?thesis by (simp add: row_at_def)
  next
    case (Some c1)
    with eq obtain c2 where c2: "columns r2 k = Some c2" "take (Suc i) c1 = take (Suc i) c2"
      by (cases "columns r2 k") auto
    from c2(2) have "c1 ! i = c2 ! i" by (rule take_Suc_nth_eq)
    with Some c2(1) show ?thesis by (simp add: row_at_def)
  qed
qed

lemma head_rows_indicator_frame:
  "head_rows n (indicator_frame df h l c) = indicator_frame (head_rows n df) (take n h) (take n l) (take n c)"
proof (rule frame_eqI)
  show "index (head_rows n (indicator_frame df h l c))
      = index (indicator_frame (head_rows n df) (take n h) (take n l) (take n c))"
    by simp
  fix k
  consider (temp) "k \<in> set temp_cols" | (named) "k \<in> set indicator_names"
    | (other) "k \<notin> set temp_cols" "k \<notin> set indicator_names" by blast
  then show "columns (head_rows n (indicator_frame df h l c)) k
      = columns (indicator_frame (head_rows n df) (take n h) (take n l) (take n c)) k"
  proof cases
    case temp
    then show ?thesis by (simp add: columns_indicator_frame_temp)
  next
    case named
    then have "k = ''donchian_high_10'' \<or> k = ''donchian_low_10'' \<or> k = ''donchian_high_20''
      \<or> k = ''donchian_low_20'' \<or> k = ''donchian_high_55'' \<or> k = ''donchian_low_55''
      \<or> k = ''true_range'' \<or> k = ''atr_10'' \<or> k = ''atr_20'' \<or> k = ''atr_30''
      \<or> k = ''sma_10'' \<or> k = ''sma_20'' \<or> k = ''sma_50'' \<or> k = ''sma_200'' \<or> k = ''returns''
      \<or> k = ''volatility_10'' \<or> k = ''volatility_20'' \<or> k = ''volatility_30''"
      by (simp add: indicator_names_def)
    then show ?thesis
      by (elim disjE)
        (simp_all only: columns_head_rows columns_indicator_frame_named option.map
          take_rolling take_true_range_of take_pct_change)
  next
    case other
    then show ?thesis by (simp add: columns_indicator_frame_other)
  qed
qed

lemma cti_head_rows:
  "calculate_technical_indicators (head_rows n df) = map_sum id (head_rows n) (calculate_technical_indicators df)"
proof (cases "columns df ''high'' = None \<or> columns df ''low'' = None \<or> columns df ''close'' = None")
  case True
  then have "columns (head_rows n df) ''high'' = None \<or> columns (head_rows n df) ''low'' = None
      \<or> columns (head_rows n df) ''close'' = None" by auto
  then have "calculate_technical_indicators (head_rows n df) = Inl KeyError" by (rule cti_KeyError)
  moreover have "calculate_technical_indicators df = Inl KeyError" using True by (rule cti_KeyError)
  ultimately show ?thesis by simp
next
  case False
  then obtain h l c where cols: "columns df ''high'' = Some h" "columns df ''low'' = Some l"
    "columns df ''close'' = Some c" by auto
  then have cols': "columns (head_rows n df) ''high'' = Some (take n h)"
    "columns (head_rows n df) ''low'' = Some (take n l)"
    "columns (head_rows n df) ''close'' = Some (take n c)" by simp_all
  show ?thesis
    by (simp add: cti_eq [OF cols] cti_eq [OF cols'] head_rows_indicator_frame)
qed

section \<open>No validation of the input\<close>

text \<open>
  C4 as stated fails: the computation returns a normal result, of two rows, on a series
  whose bars have \<open>high < low\<close>; the true range of bar 0 is then the negative number
  \<open>high - low\<close>.
\<close>

theorem no_invalid_input_counterexample:
  "map_sum id len (calculate_technical_indicators inverted_bars) = Inr 2
   \<and> cell (calculate_technical_indicators inverted_bars) ''true_range'' 0 = Some (Val (- 3))"
proof -
  have cols: "columns inverted_bars ''high'' = Some [Val 9, Val 9]"
    "columns inverted_bars ''low'' = Some [Val 12, Val 12]"
    "columns inverted_bars ''close'' = Some [Val 11, Val 11]"
    by (simp_all add: inverted_bars_def)
  have tr: "true_range_of [Val 9, Val 9] [Val 12, Val 12] [Val 11, Val 11] ! 0 = Val (- 3)"
    by (simp add: true_range_of_def max_axis1_def shift1_def row_max3_def)
  have ix: "index inverted_bars = [0, 1]" by (simp add: inverted_bars_def)
  show ?thesis
    by (simp add: cti_eq [OF cols] cell_def columns_indicator_frame_named tr len_def ix)
qed

text \<open>
  C4, amended. The computation validates neither the series nor any window: whenever the
  frame has the \<open>high\<close>, \<open>low\<close> and \<open>close\<close> columns it returns a normal result with the
  same index, also for a series without bars and for bars that violate the OHLC ordering;
  its only failure is the \<open>KeyError\<close> of a missing column. The windows are constants of the
  code, all positive, so no window error arises.
\<close>

theorem cti_fails_only_on_missing_column:
  "(columns df ''high'' \<noteq> None \<and> columns df ''low'' \<noteq> None \<and> columns df ''close'' \<noteq> None
      \<longrightarrow> (\<exists>r. calculate_technical_indicators df = Inr r \<and> index r = index df))
   \<and> (columns df ''high'' = None \<or> columns df ''low'' = None \<or> columns df ''close'' = None
      \<longrightarrow> calculate_technical_indicators df = Inl KeyError)"
proof (intro conjI impI)
  assume "columns df ''high'' \<noteq> None \<and> columns df ''low'' \<noteq> None \<and> columns df ''close'' \<noteq> None"
  then obtain h l c where cols: "columns df ''high'' = Some h" "columns df ''low'' = Some l"
    "columns df ''close'' = Some c" by auto
  have "calculate_technical_indicators df = Inr (indicator_frame df h l c)
      \<and> index (indicator_frame df h l c) = index df"
    by (simp add: cti_eq [OF cols])
  then show "\<exists>r. calculate_technical_indicators df = Inr r \<and> index r = index df" ..
next
  assume "columns df ''high'' = None \<or> columns df ''low'' = None \<or> columns df ''close'' = None"
  then show "calculate_technical_indicators df = Inl KeyError" by (rule cti_KeyError)
qed

theorem cti_fails_only_on_missing_column_witness:
  "map_sum id index (calculate_technical_indicators inverted_bars) = Inr [0, 1]
   \<and> map_sum id index (calculate_technical_indicators (flat_bars 0)) = Inr []
   \<and> calculate_technical_indicators (drop_cols inverted_bars [''high'']) = Inl KeyError"
proof -
  have a: "columns inverted_bars ''high'' \<noteq> None \<and> columns inverted_bars ''low'' \<noteq> None
      \<and> columns inverted_bars ''close'' \<noteq> None"
    by (simp add: inverted_bars_def)
  have b: "columns (flat_bars 0) ''high'' \<noteq> None \<and> columns (flat_bars 0) ''low'' \<noteq> None
      \<and> columns (flat_bars 0) ''close'' \<noteq> None"
    by (simp add: flat_bars_def)
  have c: "columns (drop_cols inverted_bars [''high'']) ''high'' = None
      \<or> columns (drop_cols inverted_bars [''high'']) ''low'' = None
      \<or> columns (drop_cols inverted_bars [''high'']) ''close'' = None"
    by simp
  from cti_fails_only_on_missing_column [of inverted_bars, THEN conjunct1, rule_format, OF a]
  obtain r1 where r1: "calculate_technical_indicators inverted_bars = Inr r1"
    "index r1 = index inverted_bars" by (elim exE conjE)
  from cti_fails_only_on_missing_column [of "flat_bars 0", THEN conjunct1, rule_format, OF b]
  obtain r2 where r2: "calculate_technical_indicators (flat_bars 0) = Inr r2"
    "index r2 = index (flat_bars 0)" by (elim exE conjE)
  have r3: "calculate_technical_indicators (drop_cols inverted_bars [''high'']) = Inl KeyError"
    by (rule cti_fails_only_on_missing_column [of "drop_cols inverted_bars [''high'']",
          THEN conjunct2, rule_format, OF c])
  have ix: "index inverted_bars = [0, 1]" "index (flat_bars 0) = []"
    by (simp_all add: inverted_bars_def flat_bars_def)
  show ?thesis
    unfolding r1(1) r2(1) r3 using r1(2) r2(2) ix by simp
qed

section \<open>Causality\<close>

text \<open>
  C7. The indicator computation has no look-ahead: when two frames agree on bars \<open>0 .. i\<close>
  (the same index labels and the same cells in every column there), the computation
  fails on both or succeeds on both, and the two results agree on bars \<open>0 .. i\<close>; in
  particular every indicator value of row \<open>i\<close> is the same. Bars after \<open>i\<close> may differ or
  be absent.
\<close>

theorem indicators_causal:
  assumes "head_rows (Suc i) df1 = head_rows (Suc i) df2"
  shows "map_sum id (head_rows (Suc i)) (calculate_technical_indicators df1)
         = map_sum id (head_rows (Suc i)) (calculate_technical_indicators df2)
     \<and> (\<forall>r1 r2. calculate_technical_indicators df1 = Inr r1 \<and> calculate_technical_indicators df2 = Inr r2
           \<longrightarrow> row_at r1 i = row_at r2 i)"
proof -
  have "map_sum id (head_rows (Suc i)) (calculate_technical_indicators df1)
      = calculate_technical_indicators (head_rows (Suc i) df1)"
    by (rule cti_head_rows [symmetric])
  also have "\<dots> = calculate_technical_indicators (head_rows (Suc i) df2)"
    by (simp only: assms)
  also have "\<dots> = map_sum id (head_rows (Suc i)) (calculate_technical_indicators df2)"
    by (rule cti_head_rows)
  finally have eq: "map_sum id (head_rows (Suc i)) (calculate_technical_indicators df1)
         = map_sum id (head_rows (Suc i)) (calculate_technical_indicators df2)" .
  have "row_at r1 i = row_at r2 i"
    if r: "calculate_technical_indicators df1 = Inr r1" "calculate_technical_indicators df2 = Inr r2"
    for r1 r2
  proof -
    from eq have "head_rows (Suc i) r1 = head_rows (Suc i) r2"
      unfolding r by simp
    then show ?thesis by (rule row_at_head_rows)
  qed
  with eq show ?thesis by blast
qed

theorem indicators_causal_witness:
  "head_rows (Suc 0) two_bars = head_rows (Suc 0) spiked_bars
   \<and> cell (calculate_technical_indicators two_bars) ''true_range'' 0
       = cell (calculate_technical_indicators spiked_bars) ''true_range'' 0
   \<and> cell (calculate_technical_indicators two_bars) ''true_range'' 1
       \<noteq> cell (calculate_technical_indicators spiked_bars) ''true_range'' 1"
proof -
  have agree: "head_rows (Suc 0) two_bars = head_rows (Suc 0) spiked_bars"
    by (rule frame_eqI) (simp_all add: two_bars_def spiked_bars_def)
  have c1: "columns two_bars ''high'' = Some [Val 12, Val 13]"
    "columns two_bars ''low'' = Some [Val 9, Val 10]"
    "columns two_bars ''close'' = Some [Val 11, Val 12]"
    by (simp_all add: two_bars_def)
  have c2: "columns spiked_bars ''high'' = Some [Val 12, Val 40]"
    "columns spiked_bars ''low'' = Some [Val 9, Val 20]"
    "columns spiked_bars ''close'' = Some [Val 11, Val 35]"
    by (simp_all add: spiked_bars_def)
  note r1 = cti_eq [OF c1] and r2 = cti_eq [OF c2]
  from indicators_causal [OF agree, THEN conjunct2, rule_format, OF conjI [OF r1 r2]]
  have "row_at (indicator_frame two_bars [Val 12, Val 13] [Val 9, Val 10] [Val 11, Val 12]) 0 ''true_range''
      = row_at (indicator_frame spiked_bars [Val 12, Val 40] [Val 9, Val 20] [Val 11, Val 35]) 0 ''true_range''"
    by simp
  then have bar0: "cell (calculate_technical_indicators two_bars) ''true_range'' 0
       = cell (calculate_technical_indicators spiked_bars) ''true_range'' 0"
    by (simp add: r1 r2 cell_def row_at_def)
  have bar1: "cell (calculate_technical_indicators two_bars) ''true_range'' 1
       \<noteq> cell (calculate_technical_indicators spiked_bars) ''true_range'' 1"
    by (simp add: r1 r2 cell_def columns_indicator_frame_named true_range_of_def max_axis1_def
        shift1_def row_max3_def)
  from agree bar0 bar1 show ?thesis by blast
qed

section \<open>The latest row\<close>

lemma str_int_literals:
  "str_int 10 = ''10''" "str_int 20 = ''20''" "str_int 55 = ''55''"
  by (simp_all add: str_int_def str_nat_literals)

lemma iloc_last_nonempty:
  "0 < len df \<Longrightarrow> iloc_last df = Inr (index df ! (len df - 1), row_at df (len df - 1))"
  by (simp add: iloc_last_def row_at_def)

lemma iloc_last_empty: "len df = 0 \<Longrightarrow> iloc_last df = Inl IndexError"
  by (simp add: iloc_last_def)



lemma row_getitem_row_at:
  "columns df k = Some col \<Longrightarrow> row_getitem (row_at df i) k = Inr (col ! i)"
  by (simp add: row_getitem_def row_at_def)

section \<open>The stop-loss price\<close>




section \<open>Signals of one system\<close>

lemma check_exit_result:
  "\<exists>xs. check_exit sys el smb df (row_at df i) d p sigs = Inr (sigs @ xs)
     \<and> (\<forall>s \<in> set xs. signal_type s = EXIT \<and> system s = sys)"
proof (cases "columns df (''donchian_low_'' @ str_int el)")
  case None
  then show ?thesis by (simp add: check_exit_def)
next
  case (Some col)
  then show ?thesis
    by (simp add: check_exit_def row_getitem_row_at exit_signal_def)
qed

lemma check_system_signals_absent:
  "columns df (''donchian_high_'' @ str_int bl) = None
   \<Longrightarrow> check_system_signals sys bl el cfg smb df r d = Inr []"
  by (simp add: check_system_signals_def)

lemma check_system_signals_present:
  assumes "columns df ''close'' = Some c"
    and "columns df (''donchian_high_'' @ str_int bl) = Some h"
    and "columns df (''donchian_low_'' @ str_int bl) = Some l"
  shows "\<exists>xs. check_system_signals sys bl el cfg smb df (row_at df i) d
      = Inr ((if fgt (c ! i) (h ! i) \<and> \<not> isna (h ! i)
              then [buy_signal smb d (c ! i) sys
                     (fsub (c ! i) (fmul (Val (stop_atr_multiple cfg))
                        (row_get (row_at df i) (''atr_'' @ str_int (atr_period cfg)) (Val 0))))]
              else []) @ xs)
     \<and> (\<forall>s \<in> set xs. signal_type s = EXIT \<and> system s = sys)"
proof -
  have "check_system_signals sys bl el cfg smb df (row_at df i) d
      = check_exit sys el smb df (row_at df i) d (c ! i)
          (if fgt (c ! i) (h ! i) \<and> \<not> isna (h ! i)
           then [buy_signal smb d (c ! i) sys
                  (fsub (c ! i) (fmul (Val (stop_atr_multiple cfg))
                     (row_get (row_at df i) (''atr_'' @ str_int (atr_period cfg)) (Val 0))))]
           else [])"
    using assms by (simp add: check_system_signals_def row_getitem_row_at)
  then show ?thesis using check_exit_result by simp
qed

lemma entries_of_append: "entries_of sys (xs @ ys) = entries_of sys xs @ entries_of sys ys"
  by (simp add: entries_of_def)

lemma entries_of_exits: "\<forall>s \<in> set xs. signal_type s = EXIT \<and> P s \<Longrightarrow> entries_of sys xs = []"
  by (auto simp: entries_of_def filter_empty_conv)

lemma entries_of_other_system: "\<forall>s \<in> set xs. system s = sys' \<Longrightarrow> sys' \<noteq> sys \<Longrightarrow> entries_of sys xs = []"
  by (auto simp: entries_of_def filter_empty_conv)

lemma entries_of_buy: "entries_of sys [buy_signal smb d p sys st] = [buy_signal smb d p sys st]"
  by (simp add: entries_of_def buy_signal_def)

lemma check_system_signals_paired:
  assumes "columns df ''close'' = Some c" "channel_paired df"
  shows "\<exists>sigs. check_system_signals sys bl el cfg smb df (row_at df i) d = Inr sigs
     \<and> (\<forall>s \<in> set sigs. system s = sys)"
proof (cases "columns df (''donchian_high_'' @ str_int bl)")
  case None
  then show ?thesis by (simp add: check_system_signals_absent)
next
  case (Some h)
  with assms(2) obtain l where l: "columns df (''donchian_low_'' @ str_int bl) = Some l"
    unfolding channel_paired_def by fastforce
  from check_system_signals_present [OF assms(1) Some l, of sys el cfg smb i d]
  show ?thesis by (auto simp: buy_signal_def)
qed

lemma check_system_signals_buy:
  assumes "check_system_signals sys bl el cfg smb df (row_at df i) d = Inr sigs"
    and "s \<in> set sigs" "signal_type s = BUY"
  shows "\<exists>p. price s = Val p
     \<and> stop_price s = Some (fsub (Val p) (fmul (Val (stop_atr_multiple cfg))
          (row_get (row_at df i) (''atr_'' @ str_int (atr_period cfg)) (Val 0))))"
proof (cases "columns df (''donchian_high_'' @ str_int bl)")
  case None
  with assms show ?thesis by (simp add: check_system_signals_absent)
next
  case h: (Some h)
  show ?thesis
  proof (cases "columns df ''close''")
    case None
    then have "row_getitem (row_at df i) ''close'' = Inl KeyError"
      by (simp add: row_getitem_def row_at_def)
    with h assms(1) show ?thesis by (simp add: check_system_signals_def)
  next
    case c: (Some c)
    show ?thesis
    proof (cases "columns df (''donchian_low_'' @ str_int bl)")
      case None
      then have "row_getitem (row_at df i) (''donchian_low_'' @ str_int bl) = Inl KeyError"
        by (simp add: row_getitem_def row_at_def)
      with h c assms(1) show ?thesis
        by (simp add: check_system_signals_def row_getitem_row_at)
    next
      case l: (Some l)
      from check_system_signals_present [OF c h l, of sys el cfg smb i d] assms(1)
      obtain xs where sigs: "sigs = (if fgt (c ! i) (h ! i) \<and> \<not> isna (h ! i)
              then [buy_signal smb d (c ! i) sys
                     (fsub (c ! i) (fmul (Val (stop_atr_multiple cfg))
                        (row_get (row_at df i) (''atr_'' @ str_int (atr_period cfg)) (Val 0))))]
              else []) @ xs"
        and xs: "\<forall>s \<in> set xs. signal_type s = EXIT \<and> system s = sys"
        by auto
      from assms(2,3) xs have nx: "s \<notin> set xs" by auto
      with assms(2) sigs have gt: "fgt (c ! i) (h ! i)"
        and s: "s = buy_signal smb d (c ! i) sys
                     (fsub (c ! i) (fmul (Val (stop_atr_multiple cfg))
                        (row_get (row_at df i) (''atr_'' @ str_int (atr_period cfg)) (Val 0))))"
        by (auto split: if_splits)
      from gt obtain p where p: "c ! i = Val p" by (cases "c ! i"; cases "h ! i") auto
      with s show ?thesis by (simp add: buy_signal_def)
    qed
  qed
qed

section \<open>Signals of a symbol\<close>

lemma generate_symbol_signals_unfold:
  assumes "0 < len df" "max (system1_length cfg) (system2_length cfg) \<le> int (len df)"
  shows "generate_symbol_signals cfg smb df =
     bind_err (check_system1_signals cfg smb df (row_at df (len df - 1)) (index df ! (len df - 1)))
       (\<lambda>system1_signals.
          if use_system2 cfg
          then bind_err (check_system2_signals cfg smb df (row_at df (len df - 1)) (index df ! (len df - 1)))
                 (\<lambda>system2_signals. Inr (system1_signals @ system2_signals))
          else Inr system1_signals)"
proof -
  have h: "\<not> int (len df) < max (system1_length cfg) (system2_length cfg)"
    using assms(2) by linarith
  show ?thesis
    unfolding generate_symbol_signals_def iloc_last_nonempty [OF assms(1)]
    using h by (simp only: if_False bind_err_simps prod.case)
qed

lemma generate_symbol_signals_buy:
  assumes "generate_symbol_signals cfg smb df = Inr sigs" "s \<in> set sigs" "signal_type s = BUY"
  shows "\<exists>p. price s = Val p
     \<and> stop_price s = Some (fsub (Val p) (fmul (Val (stop_atr_multiple cfg)) (latest_atr cfg df)))"
proof (cases "int (len df) < max (system1_length cfg) (system2_length cfg)")
  case True
  with assms show ?thesis by (simp add: generate_symbol_signals_def)
next
  case hist: False
  show ?thesis
  proof (cases "len df = 0")
    case True
    with hist assms(1) show ?thesis
      by (simp add: generate_symbol_signals_def iloc_last_empty)
  next
    case False
    with hist have u: "0 < len df" "max (system1_length cfg) (system2_length cfg) \<le> int (len df)"
      by linarith+
    note eq = generate_symbol_signals_unfold [OF u, of smb]
    from assms(1) obtain s1 where s1:
      "check_system1_signals cfg smb df (row_at df (len df - 1)) (index df ! (len df - 1)) = Inr s1"
      unfolding eq by (cases "check_system1_signals cfg smb df (row_at df (len df - 1)) (index df ! (len df - 1))") auto
    have in1: "\<exists>p. price s = Val p
        \<and> stop_price s = Some (fsub (Val p) (fmul (Val (stop_atr_multiple cfg)) (latest_atr cfg df)))"
      if "s \<in> set s1"
      using check_system_signals_buy [OF s1 [unfolded check_system1_signals_def] that assms(3)]
      by (simp add: latest_atr_def)
    show ?thesis
    proof (cases "use_system2 cfg")
      case False
      with assms(1) s1 have "sigs = s1" unfolding eq by simp
      with assms(2) in1 show ?thesis by simp
    next
      case True
      with assms(1) s1 obtain s2 where s2:
        "check_system2_signals cfg smb df (row_at df (len df - 1)) (index df ! (len df - 1)) = Inr s2"
        and sigs: "sigs = s1 @ s2"
        unfolding eq
        by (cases "check_system2_signals cfg smb df (row_at df (len df - 1)) (index df ! (len df - 1))") auto
      have in2: "\<exists>p. price s = Val p
          \<and> stop_price s = Some (fsub (Val p) (fmul (Val (stop_atr_multiple cfg)) (latest_atr cfg df)))"
        if "s \<in> set s2"
        using check_system_signals_buy [OF s2 [unfolded check_system2_signals_def] that assms(3)]
        by (simp add: latest_atr_def)
      from assms(2) sigs in1 in2 show ?thesis by auto
    qed
  qed
qed

lemma row_at_breakout_frame:
  "row_at breakout_frame 54 = [''close'' \<mapsto> Val 130, ''donchian_high_20'' \<mapsto> Val 100,
     ''donchian_low_20'' \<mapsto> Val 100, ''donchian_high_55'' \<mapsto> Val 100, ''donchian_low_55'' \<mapsto> Val 100,
     ''donchian_low_10'' \<mapsto> Val 100, ''atr_20'' \<mapsto> Val 0]"
  by (rule ext) (simp add: row_at_def breakout_frame_def nth_append)

lemma len_breakout_frame: "len breakout_frame = 55"
  by (simp add: len_def breakout_frame_def)

lemma breakout_signals:
  "generate_symbol_signals default_trading smb breakout_frame
     = Inr [buy_signal smb 54 (Val 130) 1 (Val 130), buy_signal smb 54 (Val 130) 2 (Val 130)]"
proof -
  have u: "0 < len breakout_frame"
    "max (system1_length default_trading) (system2_length default_trading) \<le> int (len breakout_frame)"
    by (simp_all add: len_breakout_frame default_trading_def)
  have ix: "index breakout_frame ! 54 = 54" by (simp add: breakout_frame_def)
  have cfg: "system1_length default_trading = 20" "system2_length default_trading = 55"
    "exit_length_s1 default_trading = 10" "exit_length_s2 default_trading = 20"
    "atr_period default_trading = 20" "stop_atr_multiple default_trading = 2"
    "use_system2 default_trading"
    by (simp_all add: default_trading_def)
  have cols: "columns breakout_frame ''donchian_high_20'' \<noteq> None"
    "columns breakout_frame ''donchian_high_55'' \<noteq> None"
    "columns breakout_frame ''donchian_low_10'' \<noteq> None"
    "columns breakout_frame ''donchian_low_20'' \<noteq> None"
    by (simp_all add: breakout_frame_def)
  have s1: "check_system1_signals default_trading smb breakout_frame (row_at breakout_frame 54) 54
      = Inr [buy_signal smb 54 (Val 130) 1 (Val 130)]"
    using cols
    by (simp add: check_system1_signals_def check_system_signals_def check_exit_def cfg
        str_int_literals row_at_breakout_frame row_getitem_def row_get_def isna_def)
  have s2: "check_system2_signals default_trading smb breakout_frame (row_at breakout_frame 54) 54
      = Inr [buy_signal smb 54 (Val 130) 2 (Val 130)]"
    using cols
    by (simp add: check_system2_signals_def check_system_signals_def check_exit_def cfg
        str_int_literals row_at_breakout_frame row_getitem_def row_get_def isna_def)
  show ?thesis
    unfolding generate_symbol_signals_unfold [OF u] len_breakout_frame
    by (simp add: ix s1 s2 cfg)
qed

section \<open>Stop price of an entry\<close>

text \<open>
  C6. The stop price of an entry is meant to lie strictly below its price: the engine's own
  test asserts \<open>stop_price < entry_price\<close> ("Stop should be below entry for long position").
  The code computes \<open>current_price - stop_atr_multiple * atr\<close> and emits the entry whatever the
  result is. On \<open>breakout_frame\<close>, whose ATR over the flat history is 0, the default
  configuration emits two entries, one per system, whose stop price equals their price 130.
\<close>

theorem entry_stop_equals_price:
  "map_sum id (map signal_brief) (generate_symbol_signals default_trading ''TEST'' breakout_frame)
     = Inr [(BUY, 1, Val 130, Some (Val 130)), (BUY, 2, Val 130, Some (Val 130))]"
  by (simp add: breakout_signals signal_brief_def buy_signal_def)

section \<open>Computed indicator frames carry both channels\<close>

lemma cti_channel_paired:
  assumes "channel_paired df" "calculate_technical_indicators df = Inr r"
  shows "channel_paired r"
proof -
  from assms(2) cti_KeyError [of df] obtain h l c where
    cols: "columns df ''high'' = Some h" "columns df ''low'' = Some l" "columns df ''close'' = Some c"
    by (cases "columns df ''high''"; cases "columns df ''low''"; cases "columns df ''close''") auto
  from assms(2) have r: "r = indicator_frame df h l c" by (simp add: cti_eq [OF cols])
  show ?thesis
    unfolding channel_paired_def
  proof (intro allI impI)
    fix w
    assume a: "columns r (''donchian_high_'' @ w) \<noteq> None"
    show "columns r (''donchian_low_'' @ w) \<noteq> None"
    proof (cases "w = ''10'' \<or> w = ''20'' \<or> w = ''55''")
      case True
      then show ?thesis unfolding r by (auto simp: columns_indicator_frame_named)
    next
      case False
      then have "columns r (''donchian_high_'' @ w) = columns df (''donchian_high_'' @ w)"
        unfolding r by (intro columns_indicator_frame_other) (auto simp: temp_cols_def indicator_names_def)
      with a assms(1) have "columns df (''donchian_low_'' @ w) \<noteq> None"
        unfolding channel_paired_def by simp
      moreover from False have "columns r (''donchian_low_'' @ w) = columns df (''donchian_low_'' @ w)"
        unfolding r by (intro columns_indicator_frame_other) (auto simp: temp_cols_def indicator_names_def)
      ultimately show ?thesis by simp
    qed
  qed
qed

section \<open>System-1 entry on a strict breakout\<close>

lemma system1_entries:
  assumes "channel_paired df" "0 < len df"
    and "max (system1_length cfg) (system2_length cfg) \<le> int (len df)"
    and "columns df ''close'' = Some c" "c ! (len df - 1) = Val p"
    and "columns df (''donchian_high_'' @ str_int (system1_length cfg)) = Some dh"
    and "dh ! (len df - 1) = Val hi"
  shows "\<exists>sigs. generate_symbol_signals cfg smb df = Inr sigs
     \<and> (hi < p \<longrightarrow> entries_of 1 sigs =
           [buy_signal smb (index df ! (len df - 1)) (Val p) 1
              (fsub (Val p) (fmul (Val (stop_atr_multiple cfg)) (latest_atr cfg df)))])
     \<and> (p \<le> hi \<longrightarrow> entries_of 1 sigs = [])"
proof -
  let ?i = "len df - 1" and ?d = "index df ! (len df - 1)"
  let ?buy = "buy_signal smb ?d (Val p) 1
              (fsub (Val p) (fmul (Val (stop_atr_multiple cfg)) (latest_atr cfg df)))"
  from assms(1,6) obtain dl where dl: "columns df (''donchian_low_'' @ str_int (system1_length cfg)) = Some dl"
    unfolding channel_paired_def by fastforce
  from check_system_signals_present [OF assms(4,6) dl, of 1 "exit_length_s1 cfg" cfg smb ?i ?d]
  obtain xs where s1: "check_system1_signals cfg smb df (row_at df ?i) ?d
      = Inr ((if hi < p then [?buy] else []) @ xs)"
    and xs: "\<forall>s \<in> set xs. signal_type s = EXIT \<and> system s = 1"
    unfolding check_system1_signals_def latest_atr_def using assms(5,7) by (auto simp: isna_def)
  have e1: "entries_of 1 ((if hi < p then [?buy] else []) @ xs) = (if hi < p then [?buy] else [])"
  proof -
    have "entries_of 1 xs = []" using xs by (rule entries_of_exits)
    then show ?thesis by (simp add: entries_of_append entries_of_buy) (simp add: entries_of_def)
  qed
  from check_system_signals_paired [OF assms(4,1), of 2 "system2_length cfg" "exit_length_s2 cfg" cfg smb ?i ?d]
  obtain s2 where s2: "check_system2_signals cfg smb df (row_at df ?i) ?d = Inr s2"
    and sys2: "\<forall>s \<in> set s2. system s = 2"
    unfolding check_system2_signals_def by blast
  have e2: "entries_of 1 s2 = []"
    using entries_of_other_system [OF sys2, of 1] by simp
  note eq = generate_symbol_signals_unfold [OF assms(2,3), of smb]
  show ?thesis
  proof (cases "use_system2 cfg")
    case True
    then have "generate_symbol_signals cfg smb df = Inr (((if hi < p then [?buy] else []) @ xs) @ s2)"
      unfolding eq s1 s2 by simp
    moreover have "entries_of 1 (((if hi < p then [?buy] else []) @ xs) @ s2) = (if hi < p then [?buy] else [])"
      using e1 e2 entries_of_append [of 1 "(if hi < p then [?buy] else []) @ xs" s2] by simp
    ultimately show ?thesis by auto
  next
    case False
    then have "generate_symbol_signals cfg smb df = Inr ((if hi < p then [?buy] else []) @ xs)"
      unfolding eq s1 by simp
    with e1 show ?thesis by auto
  qed
qed

lemma channel_paired_breakout_frame: "channel_paired breakout_frame"
  by (auto simp: channel_paired_def breakout_frame_def)

lemma channel_paired_touch_frame: "channel_paired touch_frame"
  by (auto simp: channel_paired_def touch_frame_def breakout_frame_def)

text \<open>
  C5 as stated fails on a frame that has the system-1 channel high but not the channel low
  of the same window: \<open>unpaired_frame\<close> has 55 bars, its latest close 130 exceeds the defined
  \<open>donchian_high_20\<close> of 100, and yet no entry is emitted, because the engine reads
  \<open>donchian_low_20\<close> first and raises \<open>KeyError\<close>; \<open>generate_signals\<close> catches it and returns
  nothing for the instrument.
\<close>

theorem system1_entry_unpaired_counterexample:
  "len unpaired_frame = 55
   \<and> row_at unpaired_frame 54 ''close'' = Some (Val 130)
   \<and> row_at unpaired_frame 54 ''donchian_high_20'' = Some (Val 100)
   \<and> generate_symbol_signals default_trading ''TEST'' unpaired_frame = Inl KeyError
   \<and> fst (generate_signals (init_engine default_trading) [(''TEST'', unpaired_frame)]) = []"
proof -
  have l: "len unpaired_frame = 55"
    by (simp add: len_def unpaired_frame_def breakout_frame_def)
  have r: "row_at unpaired_frame 54 = [''close'' \<mapsto> Val 130, ''donchian_high_20'' \<mapsto> Val 100,
     ''donchian_high_55'' \<mapsto> Val 100, ''donchian_low_55'' \<mapsto> Val 100,
     ''donchian_low_10'' \<mapsto> Val 100, ''atr_20'' \<mapsto> Val 0]"
    by (rule ext) (simp add: row_at_def unpaired_frame_def breakout_frame_def nth_append)
  have u: "0 < len unpaired_frame"
    "max (system1_length default_trading) (system2_length default_trading) \<le> int (len unpaired_frame)"
    by (simp_all add: l default_trading_def)
  have cfg: "system1_length default_trading = 20" "use_system2 default_trading"
    by (simp_all add: default_trading_def)
  have hi: "columns unpaired_frame ''donchian_high_20'' \<noteq> None"
    by (simp add: unpaired_frame_def breakout_frame_def)
  have s1: "check_system1_signals default_trading ''TEST'' unpaired_frame (row_at unpaired_frame 54) d
      = Inl KeyError" for d
    using hi
    by (simp add: check_system1_signals_def check_system_signals_def cfg str_int_literals r
        row_getitem_def)
  have g: "generate_symbol_signals default_trading ''TEST'' unpaired_frame = Inl KeyError"
    unfolding generate_symbol_signals_unfold [OF u] l by (simp add: s1)
  have "fst (generate_signals (init_engine default_trading) [(''TEST'', unpaired_frame)]) = []"
    by (simp add: generate_signals_def init_engine_def g)
  with l r g show ?thesis by simp
qed

text \<open>
  C5, amended. For an indicator series that carries the \<open>donchian_low\<close> column of every
  window whose \<open>donchian_high\<close> column it carries (as every frame computed by
  \<open>calculate_technical_indicators\<close> does), with at least
  \<open>max(system1_length, system2_length)\<close> bars and a system-1 channel high that is defined at
  the latest bar: when the latest close strictly exceeds that high, the signals of the
  symbol contain exactly one entry (BUY) of system 1, and it is priced at the latest close;
  when the latest close equals the high (or lies below it), they contain no entry of
  system 1.
\<close>

theorem system1_entry_strict:
  assumes "channel_paired df" "0 < len df"
    and "max (system1_length cfg) (system2_length cfg) \<le> int (len df)"
    and "columns df ''close'' = Some c" "c ! (len df - 1) = Val p"
    and "columns df (''donchian_high_'' @ str_int (system1_length cfg)) = Some dh"
    and "dh ! (len df - 1) = Val hi"
  shows "\<exists>sigs. generate_symbol_signals cfg smb df = Inr sigs
     \<and> (hi < p \<longrightarrow> entries_of 1 sigs =
           [\<lparr>symbol = smb, signal_type = BUY, timestamp = index df ! (len df - 1), price = Val p,
             system = 1, confidence = 1,
             stop_price = Some (fsub (Val p) (fmul (Val (stop_atr_multiple cfg)) (latest_atr cfg df))),
             target_price = None, units = 1\<rparr>])
     \<and> (p \<le> hi \<longrightarrow> entries_of 1 sigs = [])"
  using system1_entries [OF assms, of smb] by (simp add: buy_signal_def)

theorem system1_entry_strict_witness:
  "(\<exists>sigs. generate_symbol_signals default_trading ''TEST'' breakout_frame = Inr sigs
       \<and> map signal_brief (entries_of 1 sigs) = [(BUY, 1, Val 130, Some (Val 130))])
   \<and> (\<exists>sigs. generate_symbol_signals default_trading ''TEST'' touch_frame = Inr sigs
       \<and> entries_of 1 sigs = [])"
proof -
  have cfg: "system1_length default_trading = 20" "system2_length default_trading = 55"
    "stop_atr_multiple default_trading = 2"
    by (simp_all add: default_trading_def)
  have n: "(replicate 54 (Val 100) @ [Val 130]) ! (55 - 1) = Val 130"
    "(replicate 19 NaN @ replicate 36 (Val 100)) ! (55 - 1) = Val 100"
    "replicate 55 (Val 100) ! (55 - 1) = Val (100::real)"
    by (simp_all add: nth_append)
  have lb: "0 < len breakout_frame"
    "max (system1_length default_trading) (system2_length default_trading) \<le> int (len breakout_frame)"
    by (simp_all add: len_breakout_frame cfg)
  have cb: "columns breakout_frame ''close'' = Some (replicate 54 (Val 100) @ [Val 130])"
    "columns breakout_frame (''donchian_high_'' @ str_int (system1_length default_trading))
       = Some (replicate 19 NaN @ replicate 36 (Val 100))"
    by (simp_all add: breakout_frame_def cfg str_int_literals)
  have atr: "latest_atr default_trading breakout_frame = Val 0"
    by (simp add: latest_atr_def len_breakout_frame row_at_breakout_frame row_get_def
        default_trading_def str_int_literals)
  from system1_entry_strict [OF channel_paired_breakout_frame lb cb(1) _ cb(2), of 130 100 "''TEST''"]
  obtain sigs where "generate_symbol_signals default_trading ''TEST'' breakout_frame = Inr sigs"
    "entries_of 1 sigs = [\<lparr>symbol = ''TEST'', signal_type = BUY,
             timestamp = index breakout_frame ! (len breakout_frame - 1), price = Val 130,
             system = 1, confidence = 1,
             stop_price = Some (fsub (Val 130) (fmul (Val (stop_atr_multiple default_trading))
                 (latest_atr default_trading breakout_frame))),
             target_price = None, units = 1\<rparr>]"
    unfolding len_breakout_frame using n by auto
  then have first: "\<exists>sigs. generate_symbol_signals default_trading ''TEST'' breakout_frame = Inr sigs
       \<and> map signal_brief (entries_of 1 sigs) = [(BUY, 1, Val 130, Some (Val 130))]"
    by (simp add: atr cfg signal_brief_def)
  have lt: "len touch_frame = 55" by (simp add: len_def touch_frame_def breakout_frame_def)
  have lt': "0 < len touch_frame"
    "max (system1_length default_trading) (system2_length default_trading) \<le> int (len touch_frame)"
    by (simp_all add: lt cfg)
  have ct: "columns touch_frame ''close'' = Some (replicate 55 (Val 100))"
    "columns touch_frame (''donchian_high_'' @ str_int (system1_length default_trading))
       = Some (replicate 19 NaN @ replicate 36 (Val 100))"
    by (simp_all add: touch_frame_def breakout_frame_def cfg str_int_literals)
  from system1_entry_strict [OF channel_paired_touch_frame lt' ct(1) _ ct(2), of 100 100 "''TEST''"]
  have second: "\<exists>sigs. generate_symbol_signals default_trading ''TEST'' touch_frame = Inr sigs
       \<and> entries_of 1 sigs = []"
    unfolding lt using n by auto
  from first second show ?thesis by (rule conjI)
qed

section \<open>The loop of generate_signals\<close>

lemma generate_signals_loop_step:
  "generate_signals_loop cfg ((smb, df) # rest) (a, l) =
     generate_signals_loop cfg rest
       (if produced cfg smb df \<noteq> []
        then (AList.update smb (produced cfg smb df) a, AList.update smb (produced cfg smb df) l)
        else (a, l))"
  by (simp add: produced_def split: sum.splits)

lemma loop_lookup:
  assumes "distinct (map fst data)"
  shows "map_of (snd (generate_signals_loop cfg data (a, l))) k =
     (case map_of data k of
        None \<Rightarrow> map_of l k
      | Some df \<Rightarrow> if produced cfg k df \<noteq> [] then Some (produced cfg k df) else map_of l k)"
  using assms
proof (induction data arbitrary: a l)
  case Nil
  then show ?case by simp
next
  case (Cons x rest)
  obtain smb df where x: "x = (smb, df)" by (cases x)
  from Cons.prems x have d: "distinct (map fst rest)" and nk: "smb \<notin> fst ` set rest" by auto
  from nk have none: "map_of rest smb = None" by (simp add: map_of_eq_None_iff)
  define a' l' where "a' = (if produced cfg smb df \<noteq> [] then AList.update smb (produced cfg smb df) a else a)"
    and "l' = (if produced cfg smb df \<noteq> [] then AList.update smb (produced cfg smb df) l else l)"
  have eq: "generate_signals_loop cfg (x # rest) (a, l) = generate_signals_loop cfg rest (a', l')"
    unfolding x generate_signals_loop_step a'_def l'_def by simp
  have l'k: "map_of l' j = (if j = smb \<and> produced cfg smb df \<noteq> [] then Some (produced cfg smb df)
      else map_of l j)" for j
    by (simp add: l'_def update_conv')
  have "map_of (snd (generate_signals_loop cfg (x # rest) (a, l))) k =
      (case map_of rest k of
        None \<Rightarrow> map_of l' k
      | Some df \<Rightarrow> if produced cfg k df \<noteq> [] then Some (produced cfg k df) else map_of l' k)"
    unfolding eq by (rule Cons.IH [OF d])
  also have "\<dots> = (case map_of (x # rest) k of
        None \<Rightarrow> map_of l k
      | Some df \<Rightarrow> if produced cfg k df \<noteq> [] then Some (produced cfg k df) else map_of l k)"
  proof (cases "k = smb")
    case True
    then show ?thesis by (simp add: x none l'k)
  next
    case False
    then have e: "map_of l' k = map_of l k" by (simp add: l'k)
    show ?thesis unfolding e using False by (simp add: x)
  qed
  finally show ?case .
qed

lemma loop_keys:
  "fst ` set (snd (generate_signals_loop cfg data (a, l))) =
     fst ` set l \<union> {smb. \<exists>df. (smb, df) \<in> set data \<and> produced cfg smb df \<noteq> []}"
proof (induction data arbitrary: a l)
  case Nil
  then show ?case by simp
next
  case (Cons x rest)
  obtain smb df where x: "x = (smb, df)" by (cases x)
  show ?case
  proof (cases "produced cfg smb df \<noteq> []")
    case True
    then have "generate_signals_loop cfg (x # rest) (a, l) =
        generate_signals_loop cfg rest
          (AList.update smb (produced cfg smb df) a, AList.update smb (produced cfg smb df) l)"
      unfolding x generate_signals_loop_step by simp
    then show ?thesis
      using True by (auto simp: Cons.IH x dom_update)
  next
    case False
    then have "generate_signals_loop cfg (x # rest) (a, l) = generate_signals_loop cfg rest (a, l)"
      unfolding x generate_signals_loop_step by simp
    then show ?thesis
      using False by (auto simp: Cons.IH x)
  qed
qed

lemma set_update_subset: "set (AList.update k v al) \<subseteq> insert (k, v) (set al)"
  by (induction al) auto

lemma loop_invariant:
  assumes "distinct (map fst l)" "\<forall>(k, v) \<in> set l. v \<noteq> []"
  shows "distinct (map fst (snd (generate_signals_loop cfg data (a, l))))
     \<and> (\<forall>(k, v) \<in> set (snd (generate_signals_loop cfg data (a, l))). v \<noteq> [])"
  using assms
proof (induction data arbitrary: a l)
  case Nil
  then show ?case by simp
next
  case (Cons x rest)
  obtain smb df where x: "x = (smb, df)" by (cases x)
  show ?case
  proof (cases "produced cfg smb df \<noteq> []")
    case True
    let ?l = "AList.update smb (produced cfg smb df) l"
    have eq: "generate_signals_loop cfg (x # rest) (a, l) =
        generate_signals_loop cfg rest (AList.update smb (produced cfg smb df) a, ?l)"
      using True unfolding x generate_signals_loop_step by simp
    have "distinct (map fst ?l)" using Cons.prems(1) by (simp add: distinct_update)
    moreover have "\<forall>(k, v) \<in> set ?l. v \<noteq> []"
      using Cons.prems(2) True set_update_subset [of smb "produced cfg smb df" l] by auto
    ultimately show ?thesis unfolding eq by (rule Cons.IH)
  next
    case False
    then have "generate_signals_loop cfg (x # rest) (a, l) = generate_signals_loop cfg rest (a, l)"
      unfolding x generate_signals_loop_step by simp
    then show ?thesis using Cons.IH [OF Cons.prems] by simp
  qed
qed

lemma generate_signals_engine:
  "snd (generate_signals eng data)
     = eng\<lparr>last_signals := snd (generate_signals_loop (config eng) data ([], last_signals eng))\<rparr>"
  by (simp add: generate_signals_def split: prod.splits)

lemma row_at_touch_frame:
  "row_at touch_frame 54 = [''close'' \<mapsto> Val 100, ''donchian_high_20'' \<mapsto> Val 100,
     ''donchian_low_20'' \<mapsto> Val 100, ''donchian_high_55'' \<mapsto> Val 100, ''donchian_low_55'' \<mapsto> Val 100,
     ''donchian_low_10'' \<mapsto> Val 100, ''atr_20'' \<mapsto> Val 0]"
  by (rule ext) (simp add: row_at_def touch_frame_def breakout_frame_def nth_append)

lemma len_touch_frame: "len touch_frame = 55"
  by (simp add: len_def touch_frame_def breakout_frame_def)

lemma touch_signals: "generate_symbol_signals default_trading smb touch_frame = Inr []"
proof -
  have u: "0 < len touch_frame"
    "max (system1_length default_trading) (system2_length default_trading) \<le> int (len touch_frame)"
    by (simp_all add: len_touch_frame default_trading_def)
  have cfg: "system1_length default_trading = 20" "system2_length default_trading = 55"
    "exit_length_s1 default_trading = 10" "exit_length_s2 default_trading = 20"
    "atr_period default_trading = 20" "stop_atr_multiple default_trading = 2"
    "use_system2 default_trading"
    by (simp_all add: default_trading_def)
  have cols: "columns touch_frame ''donchian_high_20'' \<noteq> None"
    "columns touch_frame ''donchian_high_55'' \<noteq> None"
    "columns touch_frame ''donchian_low_10'' \<noteq> None"
    "columns touch_frame ''donchian_low_20'' \<noteq> None"
    by (simp_all add: touch_frame_def breakout_frame_def)
  have s1: "check_system1_signals default_trading smb touch_frame (row_at touch_frame 54) d = Inr []" for d
    using cols
    by (simp add: check_system1_signals_def check_system_signals_def check_exit_def cfg
        str_int_literals row_at_touch_frame row_getitem_def row_get_def isna_def)
  have s2: "check_system2_signals default_trading smb touch_frame (row_at touch_frame 54) d = Inr []" for d
    using cols
    by (simp add: check_system2_signals_def check_system_signals_def check_exit_def cfg
        str_int_literals row_at_touch_frame row_getitem_def row_get_def isna_def)
  show ?thesis
    unfolding generate_symbol_signals_unfold [OF u] len_touch_frame
    by (simp add: s1 s2 cfg)
qed

section \<open>Effect of generate_signals on the recorded signals\<close>

text \<open>
  C8. After a \<open>generate_signals\<close> call on a batch (a dictionary, so its keys are distinct):
  for every instrument of the batch whose computation produced a non-empty signal list,
  the engine's entry for that instrument is exactly that list; for every instrument of the
  batch that produced an empty list, or was skipped because its computation raised, the
  entry is what it was before; and the entries of all other instruments are unchanged. The
  configuration is unchanged.
\<close>

theorem generate_signals_frame:
  assumes "distinct (map fst data)"
  shows "(\<forall>smb df sigs. (smb, df) \<in> set data \<and> generate_symbol_signals (config eng) smb df = Inr sigs
             \<and> sigs \<noteq> []
           \<longrightarrow> map_of (last_signals (snd (generate_signals eng data))) smb = Some sigs)
     \<and> (\<forall>smb df. (smb, df) \<in> set data \<and> produced (config eng) smb df = []
           \<longrightarrow> map_of (last_signals (snd (generate_signals eng data))) smb = map_of (last_signals eng) smb)
     \<and> (\<forall>smb. smb \<notin> fst ` set data
           \<longrightarrow> map_of (last_signals (snd (generate_signals eng data))) smb = map_of (last_signals eng) smb)
     \<and> config (snd (generate_signals eng data)) = config eng"
proof (intro conjI allI impI)
  fix smb df sigs
  assume a: "(smb, df) \<in> set data \<and> generate_symbol_signals (config eng) smb df = Inr sigs \<and> sigs \<noteq> []"
  then have "map_of data smb = Some df" using assms by simp
  moreover from a have "produced (config eng) smb df = sigs" by (simp add: produced_def)
  ultimately show "map_of (last_signals (snd (generate_signals eng data))) smb = Some sigs"
    using a by (simp add: generate_signals_engine loop_lookup [OF assms])
next
  fix smb df
  assume a: "(smb, df) \<in> set data \<and> produced (config eng) smb df = []"
  then have "map_of data smb = Some df" using assms by simp
  with a show "map_of (last_signals (snd (generate_signals eng data))) smb = map_of (last_signals eng) smb"
    by (simp add: generate_signals_engine loop_lookup [OF assms])
next
  fix smb
  assume "smb \<notin> fst ` set data"
  then have "map_of data smb = None" by (simp add: map_of_eq_None_iff)
  then show "map_of (last_signals (snd (generate_signals eng data))) smb = map_of (last_signals eng) smb"
    by (simp add: generate_signals_engine loop_lookup [OF assms])
next
  show "config (snd (generate_signals eng data)) = config eng"
    by (simp add: generate_signals_engine)
qed

theorem generate_signals_frame_witness:
  "distinct (map fst batch)
   \<and> map_of (last_signals (snd (generate_signals seasoned_engine batch))) ''TEST''
       = Some [buy_signal ''TEST'' 54 (Val 130) 1 (Val 130), buy_signal ''TEST'' 54 (Val 130) 2 (Val 130)]
   \<and> map_of (last_signals (snd (generate_signals seasoned_engine batch))) ''FLAT''
       = Some [exit_signal ''FLAT'' 7 (Val 90) 2]
   \<and> map_of (last_signals (snd (generate_signals seasoned_engine batch))) ''OLD''
       = Some [exit_signal ''OLD'' 7 (Val 50) 1]"
proof -
  have d: "distinct (map fst batch)" by (simp add: batch_def)
  have cfg: "config seasoned_engine = default_trading" by (simp add: seasoned_engine_def)
  note fr = generate_signals_frame [OF d, of seasoned_engine, unfolded cfg]
  have "(''TEST'', breakout_frame) \<in> set batch
      \<and> generate_symbol_signals default_trading ''TEST'' breakout_frame
         = Inr [buy_signal ''TEST'' 54 (Val 130) 1 (Val 130), buy_signal ''TEST'' 54 (Val 130) 2 (Val 130)]
      \<and> [buy_signal ''TEST'' 54 (Val 130) 1 (Val 130), buy_signal ''TEST'' 54 (Val 130) 2 (Val 130)] \<noteq> []"
    by (simp add: batch_def breakout_signals)
  from fr [THEN conjunct1, rule_format, OF this]
  have t: "map_of (last_signals (snd (generate_signals seasoned_engine batch))) ''TEST''
       = Some [buy_signal ''TEST'' 54 (Val 130) 1 (Val 130), buy_signal ''TEST'' 54 (Val 130) 2 (Val 130)]" .
  have "(''FLAT'', touch_frame) \<in> set batch \<and> produced default_trading ''FLAT'' touch_frame = []"
    by (simp add: batch_def produced_def touch_signals)
  from fr [THEN conjunct2, THEN conjunct1, rule_format, OF this]
  have f: "map_of (last_signals (snd (generate_signals seasoned_engine batch))) ''FLAT''
       = Some [exit_signal ''FLAT'' 7 (Val 90) 2]"
    by (simp add: seasoned_engine_def)
  have "''OLD'' \<notin> fst ` set batch" by (simp add: batch_def)
  from fr [THEN conjunct2, THEN conjunct2, THEN conjunct1, rule_format, OF this]
  have o: "map_of (last_signals (snd (generate_signals seasoned_engine batch))) ''OLD''
       = Some [exit_signal ''OLD'' 7 (Val 50) 1]"
    by (simp add: seasoned_engine_def)
  from d t f o show ?thesis by simp
qed

section \<open>Sequences of engine operations\<close>

lemma engine_step_config: "config (engine_step op eng) = config eng"
  by (cases op) (simp_all add: generate_signals_engine)

lemma run_ops_config: "config (run_ops ops eng) = config eng"
  unfolding run_ops_def by (induction ops arbitrary: eng) (simp_all add: engine_step_config)

lemma engine_step_invariant:
  assumes "distinct (map fst (last_signals eng))" "\<forall>(k, v) \<in> set (last_signals eng). v \<noteq> []"
  shows "distinct (map fst (last_signals (engine_step op eng)))
     \<and> (\<forall>(k, v) \<in> set (last_signals (engine_step op eng)). v \<noteq> [])"
proof (cases op)
  case (GenerateSignals data)
  then show ?thesis
    using loop_invariant [OF assms, of "config eng" data "[]"]
    by (simp add: generate_signals_engine)
qed (use assms in simp_all)

lemma run_ops_invariant:
  assumes "distinct (map fst (last_signals eng))" "\<forall>(k, v) \<in> set (last_signals eng). v \<noteq> []"
  shows "distinct (map fst (last_signals (run_ops ops eng)))
     \<and> (\<forall>(k, v) \<in> set (last_signals (run_ops ops eng)). v \<noteq> [])"
  using assms unfolding run_ops_def
proof (induction ops arbitrary: eng)
  case Nil
  then show ?case by simp
next
  case (Cons op ops)
  from engine_step_invariant [OF Cons.prems, of op]
  have "distinct (map fst (last_signals (engine_step op eng)))"
    "\<forall>(k, v) \<in> set (last_signals (engine_step op eng)). v \<noteq> []" by simp_all
  then show ?case using Cons.IH by simp
qed

lemma engine_step_keys:
  "fst ` set (last_signals (engine_step op eng)) =
     fst ` set (last_signals eng)
     \<union> {smb. \<exists>data df. op = GenerateSignals data \<and> (smb, df) \<in> set data
            \<and> produced (config eng) smb df \<noteq> []}"
proof (cases op)
  case (GenerateSignals data)
  then show ?thesis
    by (simp add: generate_signals_engine loop_keys)
qed simp_all

lemma run_ops_keys:
  "fst ` set (last_signals (run_ops ops eng)) =
     fst ` set (last_signals eng)
     \<union> {smb. \<exists>data df. GenerateSignals data \<in> set ops \<and> (smb, df) \<in> set data
            \<and> produced (config eng) smb df \<noteq> []}"
  unfolding run_ops_def
proof (induction ops arbitrary: eng)
  case Nil
  then show ?case by simp
next
  case (Cons op ops)
  have "fst ` set (last_signals (fold engine_step (op # ops) eng))
      = fst ` set (last_signals (engine_step op eng))
        \<union> {smb. \<exists>data df. GenerateSignals data \<in> set ops \<and> (smb, df) \<in> set data
            \<and> produced (config eng) smb df \<noteq> []}"
    using Cons.IH [of "engine_step op eng"] by (simp add: engine_step_config)
  also have "\<dots> = fst ` set (last_signals eng)
     \<union> {smb. \<exists>data df. GenerateSignals data \<in> set (op # ops) \<and> (smb, df) \<in> set data
            \<and> produced (config eng) smb df \<noteq> []}"
    unfolding engine_step_keys by auto
  finally show ?case .
qed

lemma produced_nonempty_iff:
  "produced cfg smb df \<noteq> [] \<longleftrightarrow> (\<exists>sigs. generate_symbol_signals cfg smb df = Inr sigs \<and> sigs \<noteq> [])"
  by (cases "generate_symbol_signals cfg smb df") (simp_all add: produced_def)

section \<open>The recorded signal lists are never empty\<close>

text \<open>
  C10. After any sequence of operations on a freshly constructed engine, every list stored
  in \<open>last_signals\<close> is non-empty, and the summary's \<open>total_symbols\<close> is the number of
  instruments for which some \<open>generate_signals\<close> call of the sequence produced at least one
  signal.
\<close>

theorem last_signals_nonempty:
  "(\<forall>(smb, sigs) \<in> set (last_signals (run_ops ops (init_engine cfg))). sigs \<noteq> [])
   \<and> total_symbols (get_signal_summary (run_ops ops (init_engine cfg)))
       = card {smb. \<exists>data df sigs. GenerateSignals data \<in> set ops \<and> (smb, df) \<in> set data
            \<and> generate_symbol_signals cfg smb df = Inr sigs \<and> sigs \<noteq> []}"
proof -
  let ?eng = "run_ops ops (init_engine cfg)"
  have i0: "distinct (map fst (last_signals (init_engine cfg)))"
    "\<forall>(k, v) \<in> set (last_signals (init_engine cfg)). v \<noteq> []"
    by (simp_all add: init_engine_def)
  from run_ops_invariant [OF i0, of ops]
  have d: "distinct (map fst (last_signals ?eng))"
    and ne: "\<forall>(k, v) \<in> set (last_signals ?eng). v \<noteq> []" by simp_all
  have "total_symbols (get_signal_summary ?eng) = length (map fst (last_signals ?eng))"
    by (simp add: get_signal_summary_def Let_def)
  also have "\<dots> = card (set (map fst (last_signals ?eng)))"
    using d by (rule distinct_card [symmetric])
  also have "set (map fst (last_signals ?eng)) = fst ` set (last_signals ?eng)" by simp
  also have "\<dots> = {smb. \<exists>data df. GenerateSignals data \<in> set ops \<and> (smb, df) \<in> set data
            \<and> produced cfg smb df \<noteq> []}"
    by (simp add: run_ops_keys init_engine_def)
  also have "\<dots> = {smb. \<exists>data df sigs. GenerateSignals data \<in> set ops \<and> (smb, df) \<in> set data
            \<and> generate_symbol_signals cfg smb df = Inr sigs \<and> sigs \<noteq> []}"
    by (simp add: produced_nonempty_iff)
  finally show ?thesis using ne by simp
qed

theorem last_signals_nonempty_witness:
  "last_signals (run_ops session_ops (init_engine default_trading))
     = [(''TEST'', [buy_signal ''TEST'' 54 (Val 130) 1 (Val 130), buy_signal ''TEST'' 54 (Val 130) 2 (Val 130)])]
   \<and> total_symbols (get_signal_summary (run_ops session_ops (init_engine default_trading))) = 1
   \<and> card {smb. \<exists>data df sigs. GenerateSignals data \<in> set session_ops \<and> (smb, df) \<in> set data
            \<and> generate_symbol_signals default_trading smb df = Inr sigs \<and> sigs \<noteq> []} = 1"
proof -
  have ls: "last_signals (run_ops session_ops (init_engine default_trading))
     = [(''TEST'', [buy_signal ''TEST'' 54 (Val 130) 1 (Val 130), buy_signal ''TEST'' 54 (Val 130) 2 (Val 130)])]"
    by (simp add: run_ops_def session_ops_def init_engine_def generate_signals_def
        breakout_signals touch_signals)
  then have t: "total_symbols (get_signal_summary (run_ops session_ops (init_engine default_trading))) = 1"
    by (simp add: get_signal_summary_def Let_def)
  from last_signals_nonempty [of session_ops default_trading, THEN conjunct2] t
  have "card {smb. \<exists>data df sigs. GenerateSignals data \<in> set session_ops \<and> (smb, df) \<in> set data
            \<and> generate_symbol_signals default_trading smb df = Inr sigs \<and> sigs \<noteq> []} = 1"
    by simp
  with ls t show ?thesis by simp
qed

end
